theory Spec2Isabelle
  imports Main "HOL-Library.Word" "HOL-Library.Monad_Syntax"
begin

unbundle bit_operations_syntax

section \<open>Common declarations\<close>

text \<open>
  \<open>page_id_t\<close> and \<open>frame_id_t\<close> are 32-bit signed integers in the sources. They are
  modelled as \<open>int\<close>; the only place where a page id is incremented
  (\<open>BufferPoolManager::AllocatePage\<close>) has its wrap-around written out.
\<close>

type_synonym page_id_t = int
type_synonym frame_id_t = int

text \<open>
  Modelled from the spec: \<open>common/config.h\<close> is not among the sources. The spec calls
  \<open>INVALID_PAGE_ID\<close> "a distinguished sentinel" for "none"; it is taken to be \<open>-1\<close>, a
  value that \<open>AllocatePage\<close>, counting up from 0, does not hand out.
\<close>

definition INVALID_PAGE_ID :: page_id_t where
  "INVALID_PAGE_ID = -1"

text \<open>
  Modelled from the spec: \<open>common/config.h\<close> is not among the sources. The spec gives
  the page size as a build-time constant with default 4096.
\<close>

definition BUSTUB_PAGE_SIZE :: nat where
  "BUSTUB_PAGE_SIZE = 4096"

section \<open>Extendible hash table: directory page\<close>

text \<open>
  \<open>ExtendibleHTableDirectoryPage\<close> (extendible\_htable\_directory\_page.h/.cpp). The two
  arrays have \<open>HTABLE_DIRECTORY_ARRAY_SIZE = 512\<close> slots; they are lists of that length.
  The C++ expression \<open>1 << n\<close> is \<open>push_bit n 1\<close> on a 32-bit word; C++ leaves it
  undefined for \<open>n \<ge> 32\<close>, a range none of the evaluations below enters.
\<close>

definition HTABLE_DIRECTORY_ARRAY_SIZE :: nat where
  "HTABLE_DIRECTORY_ARRAY_SIZE = 512"

record directory_page =
  max_depth :: "32 word"
  global_depth :: "32 word"
  local_depths :: "8 word list"
  bucket_page_ids :: "page_id_t list"

definition shl1 :: "32 word \<Rightarrow> 32 word" where
  "shl1 n = push_bit (unat n) 1"

text \<open>A directory page viewed on a frame that \<open>ResetMemory\<close> has just zeroed.\<close>

definition zero_directory :: directory_page where
  "zero_directory = \<lparr> max_depth = 0, global_depth = 0,
     local_depths = replicate HTABLE_DIRECTORY_ARRAY_SIZE 0,
     bucket_page_ids = replicate HTABLE_DIRECTORY_ARRAY_SIZE 0 \<rparr>"

definition directory_Init :: "directory_page \<Rightarrow> 32 word \<Rightarrow> directory_page" where
  "directory_Init d md = d\<lparr> max_depth := md, global_depth := 0 \<rparr>"

definition GetGlobalDepthMask :: "directory_page \<Rightarrow> 32 word" where
  "GetGlobalDepthMask d = shl1 (global_depth d) - 1"

definition HashToBucketIndex :: "directory_page \<Rightarrow> 32 word \<Rightarrow> 32 word" where
  "HashToBucketIndex d hash = hash AND GetGlobalDepthMask d"

definition GetBucketPageId :: "directory_page \<Rightarrow> 32 word \<Rightarrow> page_id_t" where
  "GetBucketPageId d bucket_idx = bucket_page_ids d ! unat bucket_idx"

definition GetGlobalDepth :: "directory_page \<Rightarrow> 32 word" where
  "GetGlobalDepth d = global_depth d"

definition SetBucketPageId :: "directory_page \<Rightarrow> 32 word \<Rightarrow> page_id_t \<Rightarrow> directory_page" where
  "SetBucketPageId d bucket_idx bucket_page_id =
     d\<lparr> bucket_page_ids := (bucket_page_ids d)[unat bucket_idx := bucket_page_id] \<rparr>"

definition GetLocalDepth :: "directory_page \<Rightarrow> 32 word \<Rightarrow> 32 word" where
  "GetLocalDepth d bucket_idx = ucast (local_depths d ! unat bucket_idx)"

definition SetLocalDepth :: "directory_page \<Rightarrow> 32 word \<Rightarrow> 8 word \<Rightarrow> directory_page" where
  "SetLocalDepth d bucket_idx local_depth =
     d\<lparr> local_depths := (local_depths d)[unat bucket_idx := local_depth] \<rparr>"

definition IncrLocalDepth :: "directory_page \<Rightarrow> 32 word \<Rightarrow> directory_page" where
  "IncrLocalDepth d bucket_idx =
     d\<lparr> local_depths := (local_depths d)[unat bucket_idx := local_depths d ! unat bucket_idx + 1] \<rparr>"

definition DecrLocalDepth :: "directory_page \<Rightarrow> 32 word \<Rightarrow> directory_page" where
  "DecrLocalDepth d bucket_idx =
     d\<lparr> local_depths := (local_depths d)[unat bucket_idx := local_depths d ! unat bucket_idx - 1] \<rparr>"

definition GetSplitImageIndex :: "directory_page \<Rightarrow> 32 word \<Rightarrow> 32 word" where
  "GetSplitImageIndex d bucket_idx =
     (let local_depth = ucast (local_depths d ! unat bucket_idx) :: 32 word
      in bucket_idx XOR shl1 local_depth)"

text \<open>
  \<open>GetLocalDepthMask\<close> initialises its local \<open>uint32_t local_depth\<close> from
  \<open>bucket_page_ids_[bucket_idx]\<close>, as the source does.
\<close>

definition GetLocalDepthMask :: "directory_page \<Rightarrow> 32 word \<Rightarrow> 32 word" where
  "GetLocalDepthMask d bucket_idx =
     (let local_depth = word_of_int (bucket_page_ids d ! unat bucket_idx) :: 32 word
      in shl1 local_depth - 1)"

definition directory_Size :: "directory_page \<Rightarrow> 32 word" where
  "directory_Size d = shl1 (global_depth d)"

definition directory_MaxSize :: "directory_page \<Rightarrow> 32 word" where
  "directory_MaxSize d = shl1 (max_depth d)"

text \<open>
  The copying loop of \<open>IncrGlobalDepth\<close>: \<open>origin_index\<close> and \<open>new_index\<close> advance
  together while \<open>new_index < 1 << global_depth_\<close>.
\<close>

function IncrGlobalDepth_loop :: "directory_page \<Rightarrow> 32 word \<Rightarrow> 32 word \<Rightarrow> directory_page" where
  "IncrGlobalDepth_loop d origin_index new_index =
     (if new_index < shl1 (global_depth d)
      then IncrGlobalDepth_loop
             (d\<lparr> bucket_page_ids := (bucket_page_ids d)[unat new_index := bucket_page_ids d ! unat origin_index],
                 local_depths := (local_depths d)[unat new_index := local_depths d ! unat origin_index] \<rparr>)
             (origin_index + 1) (new_index + 1)
      else d)"
  by pat_completeness auto
termination
  by (relation "measure (\<lambda>(d, origin_index, new_index). unat (shl1 (global_depth d)) - unat new_index)")
     (simp, simp, unat_arith)

definition IncrGlobalDepth :: "directory_page \<Rightarrow> directory_page" where
  "IncrGlobalDepth d =
     (let d1 = d\<lparr> global_depth := global_depth d + 1 \<rparr>
      in IncrGlobalDepth_loop d1 0 (shl1 (global_depth d1 - 1)))"

definition DecrGlobalDepth :: "directory_page \<Rightarrow> directory_page" where
  "DecrGlobalDepth d = d\<lparr> global_depth := global_depth d - 1 \<rparr>"

section \<open>Extendible hash table: header page\<close>

text \<open>
  \<open>ExtendibleHTableHeaderPage\<close>: \<open>HTABLE_HEADER_ARRAY_SIZE = 512\<close> directory page ids
  and the maximum depth. \<open>Init\<close> fills the first \<open>1 << max_depth\<close> slots with
  \<open>INVALID_PAGE_ID\<close> (\<open>std::fill\<close>).
\<close>

definition HTABLE_HEADER_ARRAY_SIZE :: nat where
  "HTABLE_HEADER_ARRAY_SIZE = 512"

record header_page =
  directory_page_ids :: "page_id_t list"
  header_depth :: "32 word"

definition zero_header :: header_page where
  "zero_header = \<lparr> directory_page_ids = replicate HTABLE_HEADER_ARRAY_SIZE 0, header_depth = 0 \<rparr>"

definition fill_prefix :: "nat \<Rightarrow> 'a \<Rightarrow> 'a list \<Rightarrow> 'a list" where
  "fill_prefix n v xs = replicate (min n (length xs)) v @ drop n xs"

definition header_Init :: "header_page \<Rightarrow> 32 word \<Rightarrow> header_page" where
  "header_Init h md =
     h\<lparr> header_depth := md,
        directory_page_ids := fill_prefix (unat (shl1 md)) INVALID_PAGE_ID (directory_page_ids h) \<rparr>"

text \<open>
  \<open>hash >> (sizeof(uint32_t) * 8 - max_depth_)\<close>, guarded by \<open>max_depth_ > 0\<close>.
\<close>

definition HashToDirectoryIndex :: "header_page \<Rightarrow> 32 word \<Rightarrow> 32 word" where
  "HashToDirectoryIndex h hash =
     (if header_depth h > 0 then drop_bit (32 - unat (header_depth h)) hash else 0)"

definition GetDirectoryPageId :: "header_page \<Rightarrow> 32 word \<Rightarrow> page_id_t" where
  "GetDirectoryPageId h directory_idx = directory_page_ids h ! unat directory_idx"

definition SetDirectoryPageId :: "header_page \<Rightarrow> 32 word \<Rightarrow> page_id_t \<Rightarrow> header_page" where
  "SetDirectoryPageId h directory_idx directory_page_id =
     h\<lparr> directory_page_ids := (directory_page_ids h)[unat directory_idx := directory_page_id] \<rparr>"

section \<open>Extendible hash table: bucket page\<close>

text \<open>
  \<open>ExtendibleHTableBucketPage\<close>. The list \<open>entries\<close> is the live part
  \<open>array_[0 .. size_)\<close> of the page's array, so \<open>size_\<close> is its length; no operation
  of the page reads a slot at or beyond \<open>size_\<close>. The comparator returns 0 on equal
  keys, and the three scans in \<open>Lookup\<close>, \<open>Insert\<close> and \<open>Remove\<close> all stop at
  the first index \<open>tmp\<close> with \<open>!cmp(key, array_[tmp].first)\<close>.
\<close>

record ('k, 'v) bucket_page =
  bucket_max :: nat
  entries :: "('k \<times> 'v) list"

definition zero_bucket :: "('k, 'v) bucket_page" where
  "zero_bucket = \<lparr> bucket_max = 0, entries = [] \<rparr>"

definition bucket_Init :: "('k, 'v) bucket_page \<Rightarrow> nat \<Rightarrow> ('k, 'v) bucket_page" where
  "bucket_Init b max_size = b\<lparr> entries := [], bucket_max := max_size \<rparr>"

fun first_match :: "('k \<Rightarrow> 'k \<Rightarrow> int) \<Rightarrow> 'k \<Rightarrow> ('k \<times> 'v) list \<Rightarrow> nat option" where
  "first_match cmp key [] = None"
| "first_match cmp key (e # es) =
     (if cmp key (fst e) = 0 then Some 0 else map_option Suc (first_match cmp key es))"

definition bucket_Size :: "('k, 'v) bucket_page \<Rightarrow> nat" where
  "bucket_Size b = length (entries b)"

definition IsFull :: "('k, 'v) bucket_page \<Rightarrow> bool" where
  "IsFull b \<longleftrightarrow> bucket_Size b = bucket_max b"

definition IsEmpty :: "('k, 'v) bucket_page \<Rightarrow> bool" where
  "IsEmpty b \<longleftrightarrow> bucket_Size b = 0"

definition KeyAt :: "('k, 'v) bucket_page \<Rightarrow> nat \<Rightarrow> 'k" where
  "KeyAt b bucket_idx = fst (entries b ! bucket_idx)"

definition ValueAt :: "('k, 'v) bucket_page \<Rightarrow> nat \<Rightarrow> 'v" where
  "ValueAt b bucket_idx = snd (entries b ! bucket_idx)"

definition Lookup :: "('k, 'v) bucket_page \<Rightarrow> 'k \<Rightarrow> ('k \<Rightarrow> 'k \<Rightarrow> int) \<Rightarrow> 'v option" where
  "Lookup b key cmp =
     (case first_match cmp key (entries b) of
        Some tmp \<Rightarrow> Some (snd (entries b ! tmp))
      | None \<Rightarrow> None)"

definition bucket_Insert ::
  "('k, 'v) bucket_page \<Rightarrow> 'k \<Rightarrow> 'v \<Rightarrow> ('k \<Rightarrow> 'k \<Rightarrow> int) \<Rightarrow> bool \<times> ('k, 'v) bucket_page" where
  "bucket_Insert b key val cmp =
     (if IsFull b then (False, b)
      else case first_match cmp key (entries b) of
             Some tmp \<Rightarrow> (False, b)
           | None \<Rightarrow> (True, b\<lparr> entries := entries b @ [(key, val)] \<rparr>))"

text \<open>
  \<open>Remove\<close> swaps the matching slot with the last live one and decrements \<open>size_\<close>.
\<close>

definition bucket_Remove ::
  "('k, 'v) bucket_page \<Rightarrow> 'k \<Rightarrow> ('k \<Rightarrow> 'k \<Rightarrow> int) \<Rightarrow> bool \<times> ('k, 'v) bucket_page" where
  "bucket_Remove b key cmp =
     (case first_match cmp key (entries b) of
        Some tmp \<Rightarrow> (True, b\<lparr> entries := butlast ((entries b)[tmp := last (entries b)]) \<rparr>)
      | None \<Rightarrow> (False, b))"

section \<open>Disk extendible hash table\<close>

text \<open>
  \<open>DiskExtendibleHashTable\<close> reaches its pages through the buffer pool and page guards
  and views each page's bytes at the type it expects. Here the buffer pool is seen from
  the table's side: a store of typed pages in which every page handed out stays
  available with the contents last written, and in which \<open>NewPageGuarded\<close> returns a
  zeroed page under the next page id (\<open>AllocatePage\<close> is \<open>next_page_id_++\<close> on a 32-bit
  atomic). Fetching a page id that holds no page of the expected type has no defined
  result in the source; the operations then return \<open>None\<close>.

  The hash function and the comparator are members of the table (\<open>hash_fn_\<close>,
  \<open>cmp_\<close>); \<open>Hash\<close> is the 32-bit downcast of the hash function's value, taken here as
  the member itself.
\<close>

definition wrap32 :: "int \<Rightarrow> int" where
  "wrap32 x = (x + 2 ^ 31) mod 2 ^ 32 - 2 ^ 31"

datatype ('k, 'v) page =
    HeaderPage header_page
  | DirectoryPage directory_page
  | BucketPage "('k, 'v) bucket_page"

record ('k, 'v) page_store =
  store_next_page_id :: page_id_t
  store_pages :: "page_id_t \<rightharpoonup> ('k, 'v) page"

definition empty_store :: "('k, 'v) page_store" where
  "empty_store = \<lparr> store_next_page_id = 0, store_pages = Map.empty \<rparr>"

definition store_NewPage :: "('k, 'v) page_store \<Rightarrow> page_id_t \<times> ('k, 'v) page_store" where
  "store_NewPage st =
     (store_next_page_id st, st\<lparr> store_next_page_id := wrap32 (store_next_page_id st + 1) \<rparr>)"

definition store_put :: "('k, 'v) page_store \<Rightarrow> page_id_t \<Rightarrow> ('k, 'v) page \<Rightarrow> ('k, 'v) page_store" where
  "store_put st pid pg = st\<lparr> store_pages := (store_pages st)(pid \<mapsto> pg) \<rparr>"

definition FetchHeader :: "('k, 'v) page_store \<Rightarrow> page_id_t \<Rightarrow> header_page option" where
  "FetchHeader st pid = (case store_pages st pid of Some (HeaderPage h) \<Rightarrow> Some h | _ \<Rightarrow> None)"

definition FetchDirectory :: "('k, 'v) page_store \<Rightarrow> page_id_t \<Rightarrow> directory_page option" where
  "FetchDirectory st pid = (case store_pages st pid of Some (DirectoryPage d) \<Rightarrow> Some d | _ \<Rightarrow> None)"

definition FetchBucket :: "('k, 'v) page_store \<Rightarrow> page_id_t \<Rightarrow> ('k, 'v) bucket_page option" where
  "FetchBucket st pid = (case store_pages st pid of Some (BucketPage b) \<Rightarrow> Some b | _ \<Rightarrow> None)"

record ('k, 'v) hash_table =
  bpm :: "('k, 'v) page_store"
  cmp :: "'k \<Rightarrow> 'k \<Rightarrow> int"
  hash_fn :: "'k \<Rightarrow> 32 word"
  header_max_depth :: "32 word"
  directory_max_depth :: "32 word"
  bucket_max_size :: nat
  header_page_id :: page_id_t

definition Hash :: "('k, 'v) hash_table \<Rightarrow> 'k \<Rightarrow> 32 word" where
  "Hash t key = hash_fn t key"

text \<open>The constructor: a new page becomes the header page and is initialised.\<close>

definition DiskExtendibleHashTable ::
  "('k, 'v) page_store \<Rightarrow> ('k \<Rightarrow> 'k \<Rightarrow> int) \<Rightarrow> ('k \<Rightarrow> 32 word) \<Rightarrow> 32 word \<Rightarrow> 32 word \<Rightarrow> nat
     \<Rightarrow> ('k, 'v) hash_table" where
  "DiskExtendibleHashTable st c h hmd dmd bms =
     (let (pid, st1) = store_NewPage st
      in \<lparr> bpm = store_put st1 pid (HeaderPage (header_Init zero_header hmd)),
           cmp = c, hash_fn = h, header_max_depth = hmd, directory_max_depth = dmd,
           bucket_max_size = bms, header_page_id = pid \<rparr>)"

definition GetValue :: "('k, 'v) hash_table \<Rightarrow> 'k \<Rightarrow> 'v list \<Rightarrow> (bool \<times> 'v list) option" where
  "GetValue t key result =
     (let hash_key = Hash t key in
      do {
        header_page \<leftarrow> FetchHeader (bpm t) (header_page_id t);
        let directory_index = HashToDirectoryIndex header_page hash_key;
        let directory_page_id = GetDirectoryPageId header_page directory_index;
        if directory_page_id = INVALID_PAGE_ID then Some (False, result)
        else do {
          directory_page \<leftarrow> FetchDirectory (bpm t) directory_page_id;
          let bucket_index = HashToBucketIndex directory_page hash_key;
          bucket_page \<leftarrow> FetchBucket (bpm t) (GetBucketPageId directory_page bucket_index);
          (case Lookup bucket_page key (cmp t) of
             Some v \<Rightarrow> Some (True, result @ [v])
           | None \<Rightarrow> Some (False, result))
        }
      })"

definition UpdateDirectoryMapping ::
  "directory_page \<Rightarrow> 32 word \<Rightarrow> page_id_t \<Rightarrow> 32 word \<Rightarrow> 32 word \<Rightarrow> directory_page" where
  "UpdateDirectoryMapping directory new_bucket_idx new_bucket_page_id new_local_depth local_depth_mask =
     SetLocalDepth (SetBucketPageId directory new_bucket_idx new_bucket_page_id)
       new_bucket_idx (ucast new_local_depth)"

text \<open>
  The loop of \<open>MigrateEntries\<close>: \<open>i\<close> runs up to \<open>tmp_size\<close>; an entry that routes to the
  new bucket is removed from the old bucket by key, inserted into the new one, and
  \<open>tmp_size\<close> is decremented; \<open>i\<close> is incremented on every iteration.
\<close>

function MigrateEntries_loop ::
  "('k \<Rightarrow> 32 word) \<Rightarrow> ('k \<Rightarrow> 'k \<Rightarrow> int) \<Rightarrow> ('k, 'v) bucket_page \<Rightarrow> ('k, 'v) bucket_page
     \<Rightarrow> 32 word \<Rightarrow> 32 word \<Rightarrow> nat \<Rightarrow> nat \<Rightarrow> ('k, 'v) bucket_page \<times> ('k, 'v) bucket_page" where
  "MigrateEntries_loop h c old_bucket new_bucket new_bucket_idx local_depth_mask tmp_size i =
     (if i < tmp_size then
        (let i_key = KeyAt old_bucket i in
         if new_bucket_idx \<noteq> (h i_key AND local_depth_mask)
         then MigrateEntries_loop h c old_bucket new_bucket new_bucket_idx local_depth_mask tmp_size (i + 1)
         else
           (let i_value = ValueAt old_bucket i;
                old_bucket' = snd (bucket_Remove old_bucket i_key c);
                new_bucket' = snd (bucket_Insert new_bucket i_key i_value c)
            in MigrateEntries_loop h c old_bucket' new_bucket' new_bucket_idx local_depth_mask
                 (tmp_size - 1) (i + 1)))
      else (old_bucket, new_bucket))"
  by pat_completeness auto
termination
  by (relation "measure (\<lambda>(h, c, old_bucket, new_bucket, new_bucket_idx, local_depth_mask, tmp_size, i). tmp_size - i)")
     auto

definition MigrateEntries ::
  "('k, 'v) hash_table \<Rightarrow> ('k, 'v) bucket_page \<Rightarrow> ('k, 'v) bucket_page \<Rightarrow> 32 word \<Rightarrow> 32 word
     \<Rightarrow> ('k, 'v) bucket_page \<times> ('k, 'v) bucket_page" where
  "MigrateEntries t old_bucket new_bucket new_bucket_idx local_depth_mask =
     MigrateEntries_loop (Hash t) (cmp t) old_bucket new_bucket new_bucket_idx local_depth_mask
       (bucket_Size old_bucket) 0"

definition InsertToNewBucket ::
  "('k, 'v) hash_table \<Rightarrow> directory_page \<Rightarrow> 32 word \<Rightarrow> 'k \<Rightarrow> 'v
     \<Rightarrow> bool \<times> directory_page \<times> ('k, 'v) page_store" where
  "InsertToNewBucket t directory bucket_idx key val =
     (let (new_bucket_page_id, st1) = store_NewPage (bpm t);
          new_bucket_page = bucket_Init zero_bucket (bucket_max_size t);
          (ok, new_bucket_page') = bucket_Insert new_bucket_page key val (cmp t);
          st2 = store_put st1 new_bucket_page_id (BucketPage new_bucket_page')
      in if ok
         then (True, SetLocalDepth (SetBucketPageId directory bucket_idx new_bucket_page_id) bucket_idx 0, st2)
         else (False, directory, st2))"

definition InsertToNewDirectory ::
  "('k, 'v) hash_table \<Rightarrow> header_page \<Rightarrow> 32 word \<Rightarrow> 32 word \<Rightarrow> 'k \<Rightarrow> 'v
     \<Rightarrow> bool \<times> ('k, 'v) hash_table" where
  "InsertToNewDirectory t header directory_idx hash key val =
     (let (new_directory_page_id, st1) = store_NewPage (bpm t);
          new_directory_page = directory_Init zero_directory (directory_max_depth t);
          (ok, new_directory_page', st2) =
             InsertToNewBucket (t\<lparr> bpm := st1 \<rparr>) new_directory_page 0 key val;
          st3 = store_put st2 new_directory_page_id (DirectoryPage new_directory_page')
      in if ok
         then (True, t\<lparr> bpm := store_put st3 (header_page_id t)
                          (HeaderPage (SetDirectoryPageId header directory_idx new_directory_page_id)) \<rparr>)
         else (False, t\<lparr> bpm := st3 \<rparr>))"

text \<open>
  The branch of \<open>Insert\<close> taken when the target bucket is full. The split image index and
  the mask are read before the depths change; the directory is updated in the branch
  \<open>global == local\<close> and in the branch \<open>global < local\<close>, and in no other case.
  \<open>Insert_rehash\<close> is the common tail: \<open>MigrateEntries\<close>, then the insert of the
  incoming pair into the old or the new bucket, whose result is not inspected, then
  \<open>return true\<close>.
\<close>

definition Insert_rehash ::
  "('k, 'v) hash_table \<Rightarrow> ('k, 'v) page_store \<Rightarrow> page_id_t \<Rightarrow> directory_page \<Rightarrow> page_id_t
     \<Rightarrow> ('k, 'v) bucket_page \<Rightarrow> page_id_t \<Rightarrow> ('k, 'v) bucket_page \<Rightarrow> 32 word \<Rightarrow> 32 word
     \<Rightarrow> 'k \<Rightarrow> 'v \<Rightarrow> bool \<times> ('k, 'v) hash_table" where
  "Insert_rehash t st directory_page_id directory_page bucket_page_id bucket_page
       new_bucket_page_id new_bucket_page new_bucket_index new_local_depth_mask key val =
     (let (bucket_page', new_bucket_page') =
            MigrateEntries t bucket_page new_bucket_page new_bucket_index new_local_depth_mask;
          (bucket_page'', new_bucket_page'') =
            (if new_bucket_index \<noteq> (Hash t key AND new_local_depth_mask)
             then (snd (bucket_Insert bucket_page' key val (cmp t)), new_bucket_page')
             else (bucket_page', snd (bucket_Insert new_bucket_page' key val (cmp t))));
          st1 = store_put st directory_page_id (DirectoryPage directory_page);
          st2 = store_put st1 bucket_page_id (BucketPage bucket_page'');
          st3 = store_put st2 new_bucket_page_id (BucketPage new_bucket_page'')
      in (True, t\<lparr> bpm := st3 \<rparr>))"

definition Insert_full ::
  "('k, 'v) hash_table \<Rightarrow> page_id_t \<Rightarrow> directory_page \<Rightarrow> 32 word \<Rightarrow> page_id_t
     \<Rightarrow> ('k, 'v) bucket_page \<Rightarrow> 'k \<Rightarrow> 'v \<Rightarrow> bool \<times> ('k, 'v) hash_table" where
  "Insert_full t directory_page_id directory_page bucket_index bucket_page_id bucket_page key val =
     (let (new_bucket_page_id, st1) = store_NewPage (bpm t);
          new_bucket_page = bucket_Init zero_bucket (bucket_max_size t);
          st2 = store_put st1 new_bucket_page_id (BucketPage new_bucket_page);
          new_bucket_index = GetSplitImageIndex directory_page bucket_index;
          new_local_depth_mask = GetLocalDepthMask directory_page bucket_index
      in if GetGlobalDepth directory_page = GetLocalDepth directory_page bucket_index then
           (if directory_Size directory_page = directory_MaxSize directory_page
            then (False, t\<lparr> bpm := st2 \<rparr>)
            else
              (let d1 = IncrLocalDepth directory_page bucket_index;
                   d2 = IncrGlobalDepth d1;
                   new_local_depth = GetLocalDepth d2 bucket_index;
                   d3 = UpdateDirectoryMapping d2 new_bucket_index new_bucket_page_id
                          new_local_depth new_local_depth_mask
               in Insert_rehash t st2 directory_page_id d3 bucket_page_id bucket_page
                    new_bucket_page_id new_bucket_page new_bucket_index new_local_depth_mask key val))
         else if GetGlobalDepth directory_page < GetLocalDepth directory_page bucket_index then
           (let d1 = IncrLocalDepth directory_page bucket_index;
                new_local_depth = GetLocalDepth d1 bucket_index;
                d2 = UpdateDirectoryMapping d1 new_bucket_index new_bucket_page_id
                       new_local_depth new_local_depth_mask
            in Insert_rehash t st2 directory_page_id d2 bucket_page_id bucket_page
                 new_bucket_page_id new_bucket_page new_bucket_index new_local_depth_mask key val)
         else
           Insert_rehash t st2 directory_page_id directory_page bucket_page_id bucket_page
             new_bucket_page_id new_bucket_page new_bucket_index new_local_depth_mask key val)"

definition Insert :: "('k, 'v) hash_table \<Rightarrow> 'k \<Rightarrow> 'v \<Rightarrow> (bool \<times> ('k, 'v) hash_table) option" where
  "Insert t key val =
     (let hash_key = Hash t key in
      do {
        header_page \<leftarrow> FetchHeader (bpm t) (header_page_id t);
        let directory_index = HashToDirectoryIndex header_page hash_key;
        let directory_page_id = GetDirectoryPageId header_page directory_index;
        if directory_page_id = INVALID_PAGE_ID
        then Some (InsertToNewDirectory t header_page directory_index hash_key key val)
        else do {
          directory_page \<leftarrow> FetchDirectory (bpm t) directory_page_id;
          let bucket_index = HashToBucketIndex directory_page hash_key;
          let bucket_page_id = GetBucketPageId directory_page bucket_index;
          bucket_page \<leftarrow> FetchBucket (bpm t) bucket_page_id;
          if IsFull bucket_page
          then Some (Insert_full t directory_page_id directory_page bucket_index bucket_page_id
                       bucket_page key val)
          else Some (True, t\<lparr> bpm := store_put (bpm t) bucket_page_id
                                 (BucketPage (snd (bucket_Insert bucket_page key val (cmp t)))) \<rparr>)
        }
      })"

definition Remove :: "('k, 'v) hash_table \<Rightarrow> 'k \<Rightarrow> (bool \<times> ('k, 'v) hash_table) option" where
  "Remove t key =
     (let hash_key = Hash t key in
      do {
        header_page \<leftarrow> FetchHeader (bpm t) (header_page_id t);
        let directory_index = HashToDirectoryIndex header_page hash_key;
        let directory_page_id = GetDirectoryPageId header_page directory_index;
        if directory_page_id = INVALID_PAGE_ID then Some (False, t)
        else do {
          directory_page \<leftarrow> FetchDirectory (bpm t) directory_page_id;
          let bucket_index = HashToBucketIndex directory_page hash_key;
          let bucket_page_id = GetBucketPageId directory_page bucket_index;
          bucket_page \<leftarrow> FetchBucket (bpm t) bucket_page_id;
          let (ok, bucket_page') = bucket_Remove bucket_page key (cmp t);
          Some (ok, t\<lparr> bpm := store_put (bpm t) bucket_page_id (BucketPage bucket_page') \<rparr>)
        }
      })"

text \<open>
  Modelled from the spec: \<open>storage/index/int_comparator.h\<close> and the hash function used
  by the tests are not among the sources. The spec's scenarios use integer keys, "a
  comparator object" as "equality predicate" and an "identity hash": a three-way
  comparison that returns 0 exactly on equal keys, and the key itself as its hash.
\<close>

definition IntComparator :: "int \<Rightarrow> int \<Rightarrow> int" where
  "IntComparator a b = (if a < b then -1 else if a > b then 1 else 0)"

definition identity_hash :: "int \<Rightarrow> 32 word" where
  "identity_hash k = word_of_int k"

section \<open>LRU-K replacer\<close>

text \<open>
  \<open>LRUKNode\<close> and \<open>LRUKReplacer\<close> (lru\_k\_replacer.h/.cpp). \<open>size_t\<close> is a 64-bit
  word. \<open>node_store_\<close> is an \<open>unordered_map\<close>; the order in which \<open>Evict\<close> iterates
  over it is the order of the association list, with a new node put in front. A failed
  \<open>BUSTUB_ASSERT\<close> aborts the process: the operation returns \<open>None\<close>.
\<close>

type_synonym size_t = "64 word"

text \<open>The constant \<open>INF = INT32_MAX\<close> of lru\_k\_replacer.h.\<close>

definition INF_distance :: size_t where
  "INF_distance = 2147483647"

record LRUKNode =
  history :: "size_t list"
  fid :: frame_id_t
  node_k :: size_t
  is_evictable :: bool

record LRUKReplacer =
  node_store :: "(frame_id_t \<times> LRUKNode) list"
  current_timestamp :: size_t
  evictable_size :: size_t
  replacer_size :: size_t
  replacer_k :: size_t

definition LRUKReplacer_new :: "size_t \<Rightarrow> size_t \<Rightarrow> LRUKReplacer" where
  "LRUKReplacer_new num_frames kk =
     \<lparr> node_store = [], current_timestamp = 0, evictable_size = 0,
       replacer_size = num_frames, replacer_k = kk \<rparr>"

definition LRUKNode_new :: "frame_id_t \<Rightarrow> size_t \<Rightarrow> size_t \<Rightarrow> LRUKNode" where
  "LRUKNode_new f ts kk = \<lparr> history = [ts], fid = f, node_k = kk, is_evictable = False \<rparr>"

definition GetEvictable :: "LRUKNode \<Rightarrow> bool" where
  "GetEvictable n = is_evictable n"

definition node_SetEvictable :: "LRUKNode \<Rightarrow> bool \<Rightarrow> LRUKNode" where
  "node_SetEvictable n set_evictable = n\<lparr> is_evictable := set_evictable \<rparr>"

text \<open>
  \<open>GetKDistance\<close>: the iterator starts at the front of the history and is advanced
  while \<open>k_tmp < k_\<close>, \<open>k_tmp\<close> counting from 1: it ends on index \<open>k_ - 1\<close> (on index 0
  when \<open>k_\<close> is 0).
\<close>

definition GetKDistance :: "LRUKNode \<Rightarrow> size_t \<Rightarrow> size_t" where
  "GetKDistance n ts =
     (if length (history n) < unat (node_k n) then INF_distance
      else ts - history n ! (unat (node_k n) - 1))"

definition GetEarlyTimestamp :: "LRUKNode \<Rightarrow> size_t" where
  "GetEarlyTimestamp n = last (history n)"

definition node_RecordAccess :: "LRUKNode \<Rightarrow> size_t \<Rightarrow> LRUKNode" where
  "node_RecordAccess n ts = n\<lparr> history := ts # history n \<rparr>"

text \<open>
  The loop of \<open>Evict\<close> over \<open>node_store_\<close>, on the triple \<open>mx_k_distance\<close>,
  \<open>early_timestamp\<close>, \<open>evict_id\<close>.
\<close>

fun Evict_loop ::
  "size_t \<Rightarrow> (frame_id_t \<times> LRUKNode) list \<Rightarrow> size_t \<times> size_t \<times> frame_id_t
     \<Rightarrow> size_t \<times> size_t \<times> frame_id_t" where
  "Evict_loop ts [] acc = acc"
| "Evict_loop ts ((f, node) # rest) (mx_k_distance, early_timestamp, evict_id) =
     (if \<not> GetEvictable node then Evict_loop ts rest (mx_k_distance, early_timestamp, evict_id)
      else
        (let now_k_distance = GetKDistance node ts in
         if now_k_distance > mx_k_distance
         then Evict_loop ts rest (now_k_distance, GetEarlyTimestamp node, f)
         else if now_k_distance = mx_k_distance then
           (let now_early_timestamp = GetEarlyTimestamp node in
            if early_timestamp > now_early_timestamp
            then Evict_loop ts rest (mx_k_distance, now_early_timestamp, f)
            else Evict_loop ts rest (mx_k_distance, early_timestamp, evict_id))
         else Evict_loop ts rest (mx_k_distance, early_timestamp, evict_id)))"

definition erase :: "'a \<Rightarrow> ('a \<times> 'b) list \<Rightarrow> ('a \<times> 'b) list" where
  "erase a xs = filter (\<lambda>e. fst e \<noteq> a) xs"

text \<open>
  \<open>Evict\<close> declares \<open>size_t early_timestamp;\<close> without an initialiser, and the loop
  can read it before any candidate has been chosen. The content it then has is the
  argument \<open>uninit\<close>. The result is \<open>None\<close> for \<open>return false\<close> and the evicted frame
  otherwise.
\<close>

definition Evict :: "size_t \<Rightarrow> LRUKReplacer \<Rightarrow> frame_id_t option \<times> LRUKReplacer" where
  "Evict uninit r =
     (let (mx_k_distance, early_timestamp, evict_id) =
            Evict_loop (current_timestamp r) (node_store r) (0, uninit, -1)
      in if evict_id = -1 then (None, r)
         else (Some evict_id,
               r\<lparr> node_store := erase evict_id (node_store r),
                  evictable_size := evictable_size r - 1 \<rparr>))"

definition map_node ::
  "frame_id_t \<Rightarrow> (LRUKNode \<Rightarrow> LRUKNode) \<Rightarrow> (frame_id_t \<times> LRUKNode) list
     \<Rightarrow> (frame_id_t \<times> LRUKNode) list" where
  "map_node f g xs = map (\<lambda>e. if fst e = f then (fst e, g (snd e)) else e) xs"

definition RecordAccess :: "LRUKReplacer \<Rightarrow> frame_id_t \<Rightarrow> LRUKReplacer option" where
  "RecordAccess r frame_id =
     (if \<not> (frame_id \<ge> 0 \<and> (word_of_int frame_id :: size_t) < replacer_size r) then None
      else
        (let ts = current_timestamp r + 1 in
         case map_of (node_store r) frame_id of
           None \<Rightarrow>
             Some (r\<lparr> current_timestamp := ts,
                      node_store := (frame_id, LRUKNode_new frame_id ts (replacer_k r)) # node_store r \<rparr>)
         | Some n \<Rightarrow>
             Some (r\<lparr> current_timestamp := ts,
                      node_store := map_node frame_id (\<lambda>n. node_RecordAccess n ts) (node_store r) \<rparr>)))"

definition SetEvictable :: "LRUKReplacer \<Rightarrow> frame_id_t \<Rightarrow> bool \<Rightarrow> LRUKReplacer option" where
  "SetEvictable r frame_id set_evictable =
     (case map_of (node_store r) frame_id of
        None \<Rightarrow> None
      | Some now_frame \<Rightarrow>
          if GetEvictable now_frame \<and> \<not> set_evictable then
            Some (r\<lparr> node_store := map_node frame_id (\<lambda>n. node_SetEvictable n False) (node_store r),
                     evictable_size := evictable_size r - 1 \<rparr>)
          else if \<not> GetEvictable now_frame \<and> set_evictable then
            Some (r\<lparr> node_store := map_node frame_id (\<lambda>n. node_SetEvictable n True) (node_store r),
                     evictable_size := evictable_size r + 1 \<rparr>)
          else Some r)"

definition replacer_Remove :: "LRUKReplacer \<Rightarrow> frame_id_t \<Rightarrow> LRUKReplacer option" where
  "replacer_Remove r frame_id =
     (case map_of (node_store r) frame_id of
        None \<Rightarrow> Some r
      | Some n \<Rightarrow>
          if \<not> GetEvictable n then None
          else Some (r\<lparr> node_store := erase frame_id (node_store r),
                        evictable_size := evictable_size r - 1 \<rparr>))"

definition replacer_Size :: "LRUKReplacer \<Rightarrow> size_t" where
  "replacer_Size r = evictable_size r"

section \<open>Buffer pool manager\<close>

text \<open>
  Modelled from the spec: \<open>storage/page/page.h\<close> is not among the sources. The spec
  gives a frame's metadata as page id, pin count and dirty bit; a frame that holds no
  page has the sentinel id, pin count 0 and a clear dirty bit.
\<close>

record Page =
  pg_page_id :: page_id_t
  pin_count :: int
  is_dirty :: bool

definition Page_new :: Page where
  "Page_new = \<lparr> pg_page_id = INVALID_PAGE_ID, pin_count = 0, is_dirty = False \<rparr>"

text \<open>
  \<open>BufferPoolManager\<close> (buffer\_pool\_manager.h/.cpp). The state is the frame metadata,
  the page table, the free list, the replacer and the page id counter. The bytes of the
  frames and of the file are not part of it: \<open>ResetMemory\<close> and the read and write
  requests that \<open>FetchPage\<close> and \<open>FlushPage\<close> pass to the disk scheduler (and wait
  for) change those bytes only. The argument \<open>uninit\<close> of \<open>NewPage\<close> and \<open>FetchPage\<close>
  is handed to \<open>Evict\<close>.
\<close>

record BufferPoolManager =
  pool_size :: nat
  next_page_id :: page_id_t
  pages :: "Page list"
  page_table :: "page_id_t \<rightharpoonup> frame_id_t"
  replacer :: LRUKReplacer
  free_list :: "frame_id_t list"

definition BufferPoolManager_new :: "nat \<Rightarrow> size_t \<Rightarrow> BufferPoolManager" where
  "BufferPoolManager_new n kk =
     \<lparr> pool_size = n, next_page_id = 0, pages = replicate n Page_new,
       page_table = Map.empty, replacer = LRUKReplacer_new (of_nat n) kk,
       free_list = map int [0..<n] \<rparr>"

definition AllocatePage :: "BufferPoolManager \<Rightarrow> page_id_t \<times> BufferPoolManager" where
  "AllocatePage b = (next_page_id b, b\<lparr> next_page_id := wrap32 (next_page_id b + 1) \<rparr>)"

definition FlushPage :: "BufferPoolManager \<Rightarrow> page_id_t \<Rightarrow> (bool \<times> BufferPoolManager) option" where
  "FlushPage b pid =
     (if pid = INVALID_PAGE_ID then None
      else case page_table b pid of
             None \<Rightarrow> Some (False, b)
           | Some frame_id \<Rightarrow>
               Some (True, b\<lparr> pages := (pages b)[nat frame_id :=
                                 (pages b ! nat frame_id)\<lparr> is_dirty := False \<rparr>] \<rparr>))"

text \<open>
  The frame selection that opens both \<open>NewPage\<close> and \<open>FetchPage\<close> (on a miss): the
  front of the free list, else the replacer's victim, whose page is flushed when dirty
  and whose page id is erased from the page table; \<open>None\<close> inside the result stands for
  the \<open>return nullptr\<close> that follows when there is neither.
\<close>

definition PickFrame :: "size_t \<Rightarrow> BufferPoolManager \<Rightarrow> (frame_id_t option \<times> BufferPoolManager) option" where
  "PickFrame uninit b =
     (if free_list b \<noteq> [] then Some (Some (hd (free_list b)), b\<lparr> free_list := tl (free_list b) \<rparr>)
      else case Evict uninit (replacer b) of
             (None, r) \<Rightarrow> Some (None, b)
           | (Some frame_id, r) \<Rightarrow>
               (let b1 = b\<lparr> replacer := r \<rparr>;
                    old_page = pages b1 ! nat frame_id
                in do {
                  b2 \<leftarrow> (if is_dirty old_page
                         then map_option snd (FlushPage b1 (pg_page_id old_page))
                         else Some b1);
                  Some (Some frame_id,
                        b2\<lparr> page_table := (page_table b2)(pg_page_id old_page := None) \<rparr>)
                }))"

definition NewPage ::
  "size_t \<Rightarrow> BufferPoolManager \<Rightarrow> ((page_id_t \<times> frame_id_t) option \<times> BufferPoolManager) option" where
  "NewPage uninit b =
     do {
       (fo, b1) \<leftarrow> PickFrame uninit b;
       (case fo of
          None \<Rightarrow> Some (None, b1)
        | Some frame_id \<Rightarrow>
            (let (new_page_id, b2) = AllocatePage b1 in
             do {
               r1 \<leftarrow> RecordAccess (replacer b2) frame_id;
               r2 \<leftarrow> SetEvictable r1 frame_id False;
               let b3 = b2\<lparr> replacer := r2,
                            page_table := (page_table b2)(new_page_id \<mapsto> frame_id) \<rparr>;
               let page = (pages b3 ! nat frame_id)
                            \<lparr> pin_count := 1, pg_page_id := new_page_id, is_dirty := False \<rparr>;
               Some (Some (new_page_id, frame_id), b3\<lparr> pages := (pages b3)[nat frame_id := page] \<rparr>)
             }))
     }"

definition FetchPage ::
  "size_t \<Rightarrow> BufferPoolManager \<Rightarrow> page_id_t \<Rightarrow> (frame_id_t option \<times> BufferPoolManager) option" where
  "FetchPage uninit b pid =
     (case page_table b pid of
        Some frame_id \<Rightarrow>
          (let page = pages b ! nat frame_id;
               page' = page\<lparr> pin_count := pin_count page + 1, is_dirty := True \<rparr>
           in do {
             r1 \<leftarrow> RecordAccess (replacer b) frame_id;
             r2 \<leftarrow> SetEvictable r1 frame_id False;
             Some (Some frame_id, b\<lparr> pages := (pages b)[nat frame_id := page'], replacer := r2 \<rparr>)
           })
      | None \<Rightarrow>
          do {
            (fo, b1) \<leftarrow> PickFrame uninit b;
            (case fo of
               None \<Rightarrow> Some (None, b1)
             | Some frame_id \<Rightarrow>
                 do {
                   r1 \<leftarrow> RecordAccess (replacer b1) frame_id;
                   r2 \<leftarrow> SetEvictable r1 frame_id False;
                   let b2 = b1\<lparr> replacer := r2, page_table := (page_table b1)(pid \<mapsto> frame_id) \<rparr>;
                   let page = (pages b2 ! nat frame_id)
                                \<lparr> pg_page_id := pid, pin_count := 1, is_dirty := False \<rparr>;
                   Some (Some frame_id, b2\<lparr> pages := (pages b2)[nat frame_id := page] \<rparr>)
                 })
          })"

definition UnpinPage :: "BufferPoolManager \<Rightarrow> page_id_t \<Rightarrow> bool \<Rightarrow> (bool \<times> BufferPoolManager) option" where
  "UnpinPage b pid dirty =
     (case page_table b pid of
        None \<Rightarrow> Some (False, b)
      | Some frame_id \<Rightarrow>
          if pin_count (pages b ! nat frame_id) \<le> 0 then Some (False, b)
          else
            (let page = pages b ! nat frame_id;
                 page1 = page\<lparr> pin_count := pin_count page - 1 \<rparr>
             in do {
               r \<leftarrow> SetEvictable (replacer b) frame_id (pin_count page1 = 0);
               Some (True, b\<lparr> replacer := r,
                              pages := (pages b)[nat frame_id := page1\<lparr> is_dirty := dirty \<rparr>] \<rparr>)
             }))"

definition DeletePage :: "BufferPoolManager \<Rightarrow> page_id_t \<Rightarrow> (bool \<times> BufferPoolManager) option" where
  "DeletePage b pid =
     (case page_table b pid of
        None \<Rightarrow> Some (True, b)
      | Some frame_id \<Rightarrow>
          if pin_count (pages b ! nat frame_id) > 0 then Some (False, b)
          else do {
            b1 \<leftarrow> (if is_dirty (pages b ! nat frame_id)
                   then map_option snd (FlushPage b pid)
                   else Some b);
            r \<leftarrow> replacer_Remove (replacer b1) frame_id;
            Some (True, b1\<lparr> page_table := (page_table b1)(pg_page_id (pages b1 ! nat frame_id) := None),
                            replacer := r,
                            free_list := free_list b1 @ [frame_id] \<rparr>)
          })"

section \<open>Disk manager\<close>

text \<open>
  \<open>DiskManager::ReadPage\<close> (disk\_manager.cpp). The database file is the list of its
  bytes and \<open>GetFileSize\<close> its length (the file exists: the constructor creates it).
  \<open>page_data\<close> is the caller's buffer, and the result is the buffer after the call. The
  offset is an \<open>int\<close> product, which C++ leaves undefined outside the 32-bit range; the
  theorems state that range. With a negative offset the seek fails and the read
  transfers nothing, so \<open>gcount()\<close> is 0. A physical I/O error (\<open>bad()\<close>) is outside the
  model.
\<close>

type_synonym byte = "8 word"

definition GetFileSize :: "byte list \<Rightarrow> int" where
  "GetFileSize db_file = int (length db_file)"

definition memset :: "byte list \<Rightarrow> nat \<Rightarrow> byte \<Rightarrow> nat \<Rightarrow> byte list" where
  "memset buf start v n = take start buf @ replicate n v @ drop (start + n) buf"

definition ReadPage :: "byte list \<Rightarrow> page_id_t \<Rightarrow> byte list \<Rightarrow> byte list" where
  "ReadPage db_file pid page_data =
     (let offset = pid * int BUSTUB_PAGE_SIZE in
      if offset > GetFileSize db_file then page_data
      else
        (let got = (if offset < 0 then [] else take BUSTUB_PAGE_SIZE (drop (nat offset) db_file));
             read_count = length got;
             page_data1 = got @ drop read_count page_data
         in if read_count < BUSTUB_PAGE_SIZE
            then memset page_data1 read_count 0 (BUSTUB_PAGE_SIZE - read_count)
            else page_data1))"

section \<open>Buffer pool: observations, reachable states, invariant\<close>

text \<open>
  The dirty bit and the pin count of the frame that holds a page id; \<open>None\<close> when the
  page is not resident.
\<close>

definition page_dirty :: "page_id_t \<Rightarrow> BufferPoolManager \<Rightarrow> bool option" where
  "page_dirty pid b = map_option (\<lambda>f. is_dirty (pages b ! nat f)) (page_table b pid)"

definition page_pin_count :: "page_id_t \<Rightarrow> BufferPoolManager \<Rightarrow> int option" where
  "page_pin_count pid b = map_option (\<lambda>f. pin_count (pages b ! nat f)) (page_table b pid)"

text \<open>
  The free list and the frame ids of the page table are disjoint and together are
  \<open>[0, pool_size)\<close>.
\<close>

definition frames_partitioned :: "BufferPoolManager \<Rightarrow> bool" where
  "frames_partitioned b \<longleftrightarrow>
     set (free_list b) \<inter> ran (page_table b) = {} \<and>
     set (free_list b) \<union> ran (page_table b) = {0..<int (pool_size b)}"

text \<open>
  The states reached from a new buffer pool by \<open>NewPage\<close>, \<open>FetchPage\<close>, \<open>UnpinPage\<close>,
  \<open>FlushPage\<close> and \<open>DeletePage\<close> calls that return (no assertion fails), where
  \<open>NewPage\<close> is called only while the page id it is about to allocate is not
  resident.
\<close>

inductive reachable :: "nat \<Rightarrow> size_t \<Rightarrow> BufferPoolManager \<Rightarrow> bool" for n :: nat and kk :: size_t where
  init: "reachable n kk (BufferPoolManager_new n kk)"
| new_page: "reachable n kk b \<Longrightarrow> page_table b (next_page_id b) = None \<Longrightarrow>
     NewPage uninit b = Some (res, b') \<Longrightarrow> reachable n kk b'"
| fetch_page: "reachable n kk b \<Longrightarrow> FetchPage uninit b pid = Some (fres, b') \<Longrightarrow> reachable n kk b'"
| unpin_page: "reachable n kk b \<Longrightarrow> UnpinPage b pid dirty = Some (ok, b') \<Longrightarrow> reachable n kk b'"
| flush_page: "reachable n kk b \<Longrightarrow> FlushPage b pid = Some (ok, b') \<Longrightarrow> reachable n kk b'"
| delete_page: "reachable n kk b \<Longrightarrow> DeletePage b pid = Some (ok, b') \<Longrightarrow> reachable n kk b'"

text \<open>
  The invariant behind the partition, with a set \<open>F\<close> of frames that have been taken
  out of the free list or evicted and not yet entered in the page table: the frame
  array has \<open>pool_size\<close> entries, the free list has no duplicates, every page table
  entry points to a frame that carries that page id, and the replacer tracks resident
  frames only.
\<close>

definition bpm_inv :: "frame_id_t set \<Rightarrow> BufferPoolManager \<Rightarrow> bool" where
  "bpm_inv F b \<longleftrightarrow>
     length (pages b) = pool_size b \<and>
     distinct (free_list b) \<and>
     set (free_list b) \<inter> ran (page_table b) = {} \<and>
     set (free_list b) \<union> ran (page_table b) = {0..<int (pool_size b)} - F \<and>
     (\<forall>pid f. page_table b pid = Some f \<longrightarrow> map pg_page_id (pages b) ! nat f = pid) \<and>
     fst ` set (node_store (replacer b)) \<subseteq> ran (page_table b)"

section \<open>Example states\<close>

text \<open>
  A table of integer keys with header depth 0, directory maximum depth 2 and buckets of
  two entries, on an empty store: the header page gets page id 0.
\<close>

definition example_table :: "(int, int) hash_table" where
  "example_table = DiskExtendibleHashTable empty_store IntComparator identity_hash 0 2 2"

text \<open>
  The same table after six inserts. The first creates directory page 1 and bucket page 2;
  the third and the sixth find their bucket full and split it.
\<close>

definition split_table :: "(int, int) hash_table option" where
  "split_table =
     do {
       (r1, t1) \<leftarrow> Insert example_table 0 10;
       (r2, t2) \<leftarrow> Insert t1 2 12;
       (r3, t3) \<leftarrow> Insert t2 4 14;
       (r4, t4) \<leftarrow> Insert t3 1 11;
       (r5, t5) \<leftarrow> Insert t4 5 15;
       (r6, t6) \<leftarrow> Insert t5 9 19;
       Some t6
     }"

text \<open>
  A replacer with \<open>k = 1\<close> after \<open>RecordAccess(0)\<close>, \<open>RecordAccess(1)\<close>,
  \<open>SetEvictable(1, true)\<close>, and one after \<open>RecordAccess(0)\<close>, \<open>SetEvictable(0, true)\<close>.
\<close>

definition last_accessed_replacer :: "LRUKReplacer option" where
  "last_accessed_replacer =
     do {
       r1 \<leftarrow> RecordAccess (LRUKReplacer_new 2 1) 0;
       r2 \<leftarrow> RecordAccess r1 1;
       SetEvictable r2 1 True
     }"

definition single_frame_replacer :: LRUKReplacer where
  "single_frame_replacer =
     \<lparr> node_store = [(0, \<lparr> history = [1], fid = 0, node_k = 1, is_evictable = True \<rparr>)],
       current_timestamp = 1, evictable_size = 1, replacer_size = 4, replacer_k = 1 \<rparr>"

text \<open>
  Buffer pools of two frames with \<open>k = 2\<close>: after \<open>FetchPage(0)\<close> and \<open>NewPage\<close>;
  after \<open>NewPage\<close>, \<open>UnpinPage(0, true)\<close> and \<open>FetchPage(0)\<close>; after one \<open>NewPage\<close>.
  Each sequence is given with the state it ends in.
\<close>

definition fetch_then_new :: "BufferPoolManager option" where
  "fetch_then_new =
     do {
       (r1, b1) \<leftarrow> FetchPage 0 (BufferPoolManager_new 2 2) 0;
       (r2, b2) \<leftarrow> NewPage 0 b1;
       Some b2
     }"

definition lost_frame_bpm :: BufferPoolManager where
  "lost_frame_bpm =
     \<lparr> pool_size = 2, next_page_id = 1,
       pages = [\<lparr> pg_page_id = 0, pin_count = 1, is_dirty = False \<rparr>,
                \<lparr> pg_page_id = 0, pin_count = 1, is_dirty = False \<rparr>],
       page_table = [0 \<mapsto> 1],
       replacer = \<lparr> node_store =
                      [(1, \<lparr> history = [2], fid = 1, node_k = 2, is_evictable = False \<rparr>),
                       (0, \<lparr> history = [1], fid = 0, node_k = 2, is_evictable = False \<rparr>)],
                    current_timestamp = 2, evictable_size = 0, replacer_size = 2, replacer_k = 2 \<rparr>,
       free_list = [] \<rparr>"

definition new_unpin_fetch :: "BufferPoolManager option" where
  "new_unpin_fetch =
     do {
       (r1, b1) \<leftarrow> NewPage 0 (BufferPoolManager_new 2 2);
       (r2, b2) \<leftarrow> UnpinPage b1 0 True;
       (r3, b3) \<leftarrow> FetchPage 0 b2 0;
       Some b3
     }"

definition dirty_pinned_bpm :: BufferPoolManager where
  "dirty_pinned_bpm =
     \<lparr> pool_size = 2, next_page_id = 1,
       pages = [\<lparr> pg_page_id = 0, pin_count = 1, is_dirty = True \<rparr>, Page_new],
       page_table = [0 \<mapsto> 0],
       replacer = \<lparr> node_store =
                      [(0, \<lparr> history = [2, 1], fid = 0, node_k = 2, is_evictable = False \<rparr>)],
                    current_timestamp = 2, evictable_size = 0, replacer_size = 2, replacer_k = 2 \<rparr>,
       free_list = [1] \<rparr>"

definition one_page_bpm :: BufferPoolManager where
  "one_page_bpm =
     \<lparr> pool_size = 2, next_page_id = 1,
       pages = [\<lparr> pg_page_id = 0, pin_count = 1, is_dirty = False \<rparr>, Page_new],
       page_table = [0 \<mapsto> 0],
       replacer = \<lparr> node_store =
                      [(0, \<lparr> history = [1], fid = 0, node_k = 2, is_evictable = False \<rparr>)],
                    current_timestamp = 1, evictable_size = 0, replacer_size = 2, replacer_k = 2 \<rparr>,
       free_list = [1] \<rparr>"

section \<open>Theorems: extendible hash table\<close>

text \<open>
  C1. The claim: the table behaves as a mapping, so after a successful \<open>Insert(k, v)\<close>
  and before any \<open>Remove(k)\<close>, \<open>GetValue(k)\<close> returns true and appends \<open>v\<close>, across
  bucket splits. On the example table, \<open>Insert(0, 10)\<close>, \<open>Insert(2, 12)\<close> and
  \<open>Insert(4, 14)\<close> all return true; the third finds the bucket full, splits it with
  the mask 3 computed from the bucket's page id 2, moves nothing, fails to insert into the
  still full old bucket and reports success all the same. \<open>GetValue(4)\<close> then returns
  false with nothing appended.
\<close>

theorem Insert_true_then_GetValue_false:
  "do {
     (r1, t1) \<leftarrow> Insert example_table 0 10;
     (r2, t2) \<leftarrow> Insert t1 2 12;
     (r3, t3) \<leftarrow> Insert t2 4 14;
     g \<leftarrow> GetValue t3 4 [];
     Some (r1, r2, r3, g)
   } = Some (True, True, True, False, [])"
  by code_simp

text \<open>
  C3. The claim: after \<open>MigrateEntries\<close> no key left in the old bucket has
  \<open>Hash(k) & mask\<close> equal to the new bucket index. With the old bucket holding the
  keys 1 and 3, mask 1 and new bucket index 1, both keys route to the new bucket. The
  loop moves key 1, which swaps key 3 into slot 0, and then advances to slot 1, beyond
  the decremented bound: key 3 stays in the old bucket.
\<close>

theorem MigrateEntries_skips_swapped_entry:
  "(let old_bucket = \<lparr> bucket_max = 2, entries = [(1, 11), (3, 13)] \<rparr>;
        new_bucket = bucket_Init zero_bucket 2;
        (old_bucket', new_bucket') = MigrateEntries example_table old_bucket new_bucket 1 1
    in (entries old_bucket', entries new_bucket', Hash example_table 3 AND 1))
   = ([(3, 13)], [(1, 11)], 1)"
  by code_simp

text \<open>
  C4. The claim: when the target bucket is full and its local depth is strictly less
  than the global depth, the split increments that bucket's local depth and leaves the
  global depth alone. In \<open>split_table\<close> key 4 routes to directory index 0, whose bucket
  is full, with local depth 1 and global depth 2. \<open>Insert(4, 14)\<close> returns true and the
  local depth at index 0 is still 1: the second branch of the split tests
  \<open>global < local\<close>, so neither branch runs.
\<close>

theorem Insert_full_local_below_global_keeps_local_depth:
  "do {
     t \<leftarrow> split_table;
     d \<leftarrow> FetchDirectory (bpm t) 1;
     b \<leftarrow> FetchBucket (bpm t) (GetBucketPageId d (HashToBucketIndex d (Hash t 4)));
     (r, t') \<leftarrow> Insert t 4 14;
     d' \<leftarrow> FetchDirectory (bpm t') 1;
     Some (HashToBucketIndex d (Hash t 4), IsFull b, GetLocalDepth d 0, GetGlobalDepth d,
           r, GetLocalDepth d' 0, GetGlobalDepth d')
   } = Some (0, True, 1, 2, True, 1, 2)"
  by code_simp

text \<open>
  C5. The claim: \<open>Insert(k, v)\<close> of a key already present, routed to a bucket that is
  not full, returns false and leaves the bucket unchanged. After \<open>Insert(1, 10)\<close> on the
  example table the bucket (page 2) holds one of two entries; \<open>Insert(1, 99)\<close> leaves
  the bucket unchanged and returns true: the bucket page's \<open>Insert\<close> returns false, and
  the table's \<open>Insert\<close> does not look at it.
\<close>

theorem Insert_duplicate_returns_true:
  "do {
     (r1, t1) \<leftarrow> Insert example_table 1 10;
     b1 \<leftarrow> FetchBucket (bpm t1) 2;
     (r2, t2) \<leftarrow> Insert t1 1 99;
     b2 \<leftarrow> FetchBucket (bpm t2) 2;
     Some (r1, IsFull b1, fst (bucket_Insert b1 1 99 (cmp t1)), r2, entries b1, entries b2)
   } = Some (True, False, False, True, [(1, 10)], [(1, 10)])"
  by code_simp

text \<open>
  C8. The claim: \<open>local_depth_mask(i)\<close> is \<open>(1 << local_depths[i]) - 1\<close>. On the
  directory that the first insert creates (local depth 0 and bucket page id 2 at index
  0), \<open>GetLocalDepthMask(0)\<close> is 3, which is \<open>(1 << 2) - 1\<close> for the page id 2, and not
  \<open>(1 << 0) - 1 = 0\<close>.
\<close>

theorem GetLocalDepthMask_reads_bucket_page_id:
  "(let d = SetLocalDepth (SetBucketPageId (directory_Init zero_directory 2) 0 2) 0 0
    in (GetLocalDepth d 0, GetBucketPageId d 0, GetLocalDepthMask d 0, shl1 (GetLocalDepth d 0) - 1))
   = (0, 2, 3, 0)"
  by code_simp

section \<open>Theorems: LRU-K replacer\<close>

lemma single_frame_replacer_reached:
  "do { r1 \<leftarrow> RecordAccess (LRUKReplacer_new 4 1) 0; SetEvictable r1 0 True } = Some single_frame_replacer"
  by (simp add: RecordAccess_def SetEvictable_def LRUKReplacer_new_def single_frame_replacer_def
      LRUKNode_new_def GetEvictable_def map_node_def node_SetEvictable_def)

text \<open>
  C6. The claim: in every replacer state with at least one evictable frame, \<open>Evict\<close>
  selects the evictable frame with the largest backward k-distance, removes its node and
  decrements the evictable count. With \<open>k = 1\<close>, after \<open>RecordAccess(0)\<close>,
  \<open>RecordAccess(1)\<close> and \<open>SetEvictable(1, true)\<close>, frame 1 is the only evictable frame
  and \<open>Size()\<close> is 1, but its distance is 0, which is not greater than the initial
  maximum 0; with the uninitialised \<open>early_timestamp\<close> holding 0, \<open>Evict\<close> returns
  false.
\<close>

theorem Evict_false_with_evictable_frame: "do { r \<leftarrow> last_accessed_replacer; Some (replacer_Size r, fst (Evict 0 r)) } = Some (1, None)"
  by code_simp

lemma Evict_loop_zero_distances:
  assumes "\<forall>e \<in> set ns. is_evictable (snd e) \<longrightarrow>
             GetKDistance (snd e) ts = 0 \<and> uninit \<le> GetEarlyTimestamp (snd e)"
  shows "Evict_loop ts ns (0, uninit, -1) = (0, uninit, -1)"
  using assms
proof (induction ns)
  case Nil
  show ?case by simp
next
  case (Cons e ns)
  obtain f node where e: "e = (f, node)" by (cases e)
  show ?case
  proof (cases "is_evictable node")
    case False
    with Cons e show ?thesis by (simp add: GetEvictable_def)
  next
    case True
    with Cons.prems e have d: "GetKDistance node ts = 0" and le: "uninit \<le> GetEarlyTimestamp node"
      by auto
    from le have "\<not> GetEarlyTimestamp node < uninit" by (simp add: not_less)
    with Cons e True d show ?thesis by (simp add: GetEvictable_def)
  qed
qed

lemma GetKDistance_last_access:
  "node_k n = 1 \<Longrightarrow> history n = ts # h \<Longrightarrow> GetKDistance n ts = 0"
  by (simp add: GetKDistance_def)

text \<open>
  C10, as stated: the selection loop accepts only candidates whose distance is strictly
  greater than the running maximum, so \<open>Evict\<close> fails whenever every evictable frame
  has distance 0. In the replacer with \<open>k = 1\<close> whose single evictable frame 0 was
  accessed last, the frame has distance 0 and \<open>Size()\<close> is 1; when the uninitialised
  \<open>early_timestamp\<close> holds 2, above the frame's earliest timestamp 1, the tie branch
  accepts the frame and \<open>Evict\<close> returns it.
\<close>

theorem Evict_tie_branch_counterexample:
  "replacer_Size single_frame_replacer = 1 \<and>
   GetKDistance (snd (hd (node_store single_frame_replacer)))
     (current_timestamp single_frame_replacer) = 0 \<and>
   fst (Evict 2 single_frame_replacer) = Some 0"
  by code_simp

text \<open>
  C10, amended. \<open>Evict\<close> can return false while \<open>Size() > 0\<close>: the loop accepts a
  candidate whose distance is strictly greater than the running maximum, initialised to
  0, or, at equal distance, one whose earliest timestamp is below \<open>early_timestamp\<close>,
  which is uninitialised until a candidate has been accepted. So when every evictable
  frame has distance 0 (with \<open>k = 1\<close>, a frame whose last access carries the current
  timestamp) and the content of the uninitialised \<open>early_timestamp\<close> is not above these
  frames' earliest timestamps, \<open>Evict\<close> returns false and leaves the replacer as it
  was.
\<close>

theorem Evict_false_when_distances_zero:
  assumes "\<forall>e \<in> set (node_store r). is_evictable (snd e) \<longrightarrow>
             GetKDistance (snd e) (current_timestamp r) = 0 \<and> uninit \<le> GetEarlyTimestamp (snd e)"
  shows "Evict uninit r = (None, r)"
  using Evict_loop_zero_distances [OF assms] by (simp add: Evict_def)

text \<open>
  The hypothesis holds in the replacer with the single evictable frame 0, accessed last,
  when the uninitialised \<open>early_timestamp\<close> holds 0: the size is 1 and \<open>Evict\<close>
  returns false.
\<close>

theorem Evict_false_when_distances_zero_witness:
  "replacer_Size single_frame_replacer = 1 \<and> Evict 0 single_frame_replacer = (None, single_frame_replacer)"
  using Evict_false_when_distances_zero [of single_frame_replacer 0]
  by (simp add: single_frame_replacer_def replacer_Size_def GetKDistance_def)

section \<open>Theorems: disk manager\<close>

text \<open>
  C7, as stated: every \<open>ReadPage\<close> fills the buffer, and a read whose offset lies past
  the end of the file yields all zeros. On an empty file, \<open>ReadPage(1, buffer)\<close> with
  a buffer of ones leaves the buffer as it is: the branch \<open>offset > GetFileSize\<close> only
  logs.
\<close>

theorem ReadPage_past_end_counterexample: "ReadPage [] 1 (replicate BUSTUB_PAGE_SIZE 1) \<noteq> replicate BUSTUB_PAGE_SIZE 0"
  by (simp add: ReadPage_def GetFileSize_def BUSTUB_PAGE_SIZE_def)

lemma ReadPage_in_range:
  assumes len: "length page_data = BUSTUB_PAGE_SIZE"
    and le: "pid * int BUSTUB_PAGE_SIZE \<le> GetFileSize db_file"
  shows "ReadPage db_file pid page_data =
           (let got = (if pid * int BUSTUB_PAGE_SIZE < 0 then []
                       else take BUSTUB_PAGE_SIZE (drop (nat (pid * int BUSTUB_PAGE_SIZE)) db_file))
            in got @ replicate (BUSTUB_PAGE_SIZE - length got) 0)"
proof -
  define got where "got = (if pid * int BUSTUB_PAGE_SIZE < 0 then []
                       else take BUSTUB_PAGE_SIZE (drop (nat (pid * int BUSTUB_PAGE_SIZE)) db_file))"
  have gl: "length got \<le> BUSTUB_PAGE_SIZE"
    by (simp add: got_def)
  have "ReadPage db_file pid page_data =
          (if length got < BUSTUB_PAGE_SIZE
           then memset (got @ drop (length got) page_data) (length got) 0 (BUSTUB_PAGE_SIZE - length got)
           else got @ drop (length got) page_data)"
    using le by (simp add: ReadPage_def Let_def got_def not_less)
  also have "\<dots> = got @ replicate (BUSTUB_PAGE_SIZE - length got) 0"
    using gl len by (auto simp: memset_def)
  finally show ?thesis by (simp add: got_def Let_def)
qed

text \<open>
  C7, amended. For a buffer of \<open>BUSTUB_PAGE_SIZE\<close> bytes, a page id whose offset fits a
  32-bit \<open>int\<close> and a file shorter than \<open>2^31\<close> bytes, the buffer has
  \<open>BUSTUB_PAGE_SIZE\<close> bytes after \<open>ReadPage\<close>; when the offset is at most the file
  size, byte \<open>i\<close> is the file's byte at \<open>offset + i\<close> where the file has one (and the
  offset is not negative) and zero elsewhere; when the offset is greater than the file
  size, the buffer is unchanged.
\<close>

theorem ReadPage_buffer:
  assumes len: "length page_data = BUSTUB_PAGE_SIZE"
    and lo: "- (2 ^ 31) \<le> pid * int BUSTUB_PAGE_SIZE"
    and hi: "pid * int BUSTUB_PAGE_SIZE < 2 ^ 31"
    and fs: "length db_file < 2 ^ 31"
  shows "length (ReadPage db_file pid page_data) = BUSTUB_PAGE_SIZE \<and>
         (pid * int BUSTUB_PAGE_SIZE \<le> GetFileSize db_file \<longrightarrow>
            (\<forall>i < BUSTUB_PAGE_SIZE. ReadPage db_file pid page_data ! i =
               (if 0 \<le> pid \<and> nat (pid * int BUSTUB_PAGE_SIZE) + i < length db_file
                then db_file ! (nat (pid * int BUSTUB_PAGE_SIZE) + i) else 0))) \<and>
         (pid * int BUSTUB_PAGE_SIZE > GetFileSize db_file \<longrightarrow>
            ReadPage db_file pid page_data = page_data)"
proof (cases "pid * int BUSTUB_PAGE_SIZE \<le> GetFileSize db_file")
  case False
  then have "ReadPage db_file pid page_data = page_data"
    by (simp add: ReadPage_def Let_def)
  with False len show ?thesis by simp
next
  case True
  define off where "off = pid * int BUSTUB_PAGE_SIZE"
  define got where "got = (if off < 0 then [] else take BUSTUB_PAGE_SIZE (drop (nat off) db_file))"
  have eq: "ReadPage db_file pid page_data = got @ replicate (BUSTUB_PAGE_SIZE - length got) 0"
    using ReadPage_in_range [OF len True] by (simp add: got_def off_def Let_def)
  have gl: "length got \<le> BUSTUB_PAGE_SIZE"
    by (simp add: got_def)
  have sign: "off < 0 \<longleftrightarrow> pid < 0"
    by (simp add: off_def BUSTUB_PAGE_SIZE_def)
  have nth: "(got @ replicate (BUSTUB_PAGE_SIZE - length got) 0) ! i =
               (if 0 \<le> pid \<and> nat off + i < length db_file then db_file ! (nat off + i) else 0)"
    if "i < BUSTUB_PAGE_SIZE" for i
  proof (cases "i < length got")
    case True
    then have "\<not> off < 0" by (auto simp: got_def split: if_splits)
    with True sign show ?thesis
      by (auto simp: got_def nth_append)
  next
    case False
    then have "\<not> (0 \<le> pid \<and> nat off + i < length db_file)"
      using that sign by (auto simp: got_def split: if_splits)
    with False that gl show ?thesis
      by (auto simp: nth_append)
  qed
  from eq gl nth True show ?thesis
    by (simp add: off_def)
qed

text \<open>
  The hypotheses hold for the two-byte file \<open>[7, 8]\<close>, page 0 and a buffer of ones: byte
  1 is read from the file and byte 2 is zero-filled.
\<close>

theorem ReadPage_buffer_witness:
  "length (ReadPage [7, 8] 0 (replicate BUSTUB_PAGE_SIZE 1)) = BUSTUB_PAGE_SIZE \<and>
   ReadPage [7, 8] 0 (replicate BUSTUB_PAGE_SIZE 1) ! 1 = 8 \<and>
   ReadPage [7, 8] 0 (replicate BUSTUB_PAGE_SIZE 1) ! 2 = 0"
proof -
  have r: "length (ReadPage [7, 8] 0 (replicate BUSTUB_PAGE_SIZE 1)) = BUSTUB_PAGE_SIZE \<and>
         (\<forall>i < BUSTUB_PAGE_SIZE. ReadPage [7, 8] 0 (replicate BUSTUB_PAGE_SIZE 1) ! i =
               (if i < 2 then [7, 8] ! i else 0))"
    using ReadPage_buffer [of "replicate BUSTUB_PAGE_SIZE 1" 0 "[7, 8]"]
    by (simp add: GetFileSize_def)
  then have "ReadPage [7, 8] 0 (replicate BUSTUB_PAGE_SIZE 1) ! 1 = [7, 8] ! 1"
    and "ReadPage [7, 8] 0 (replicate BUSTUB_PAGE_SIZE 1) ! 2 = 0"
    by (simp_all add: BUSTUB_PAGE_SIZE_def)
  with r show ?thesis by simp
qed

section \<open>Theorems: buffer pool manager\<close>

subsection \<open>The example states\<close>

lemmas bpm_eval_defs =
  BufferPoolManager_new_def LRUKReplacer_new_def Page_new_def INVALID_PAGE_ID_def
  NewPage_def FetchPage_def UnpinPage_def PickFrame_def AllocatePage_def
  RecordAccess_def SetEvictable_def LRUKNode_new_def GetEvictable_def map_node_def
  node_SetEvictable_def node_RecordAccess_def wrap32_def Let_def

lemma upt_2: "[0..<2] = [0, Suc 0]"
  by (simp add: upt_rec)

lemma replicate_2: "replicate 2 x = [x, x]"
  by (simp add: numeral_2_eq_2)

lemma fetch_then_new_state: "fetch_then_new = Some lost_frame_bpm"
  by (simp add: fetch_then_new_def lost_frame_bpm_def bpm_eval_defs upt_2 replicate_2)

lemma new_unpin_fetch_state: "new_unpin_fetch = Some dirty_pinned_bpm"
  by (simp add: new_unpin_fetch_def dirty_pinned_bpm_def bpm_eval_defs upt_2 replicate_2)

lemma one_page_bpm_step: "NewPage 0 (BufferPoolManager_new 2 2) = Some (Some (0, 0), one_page_bpm)"
  by (simp add: one_page_bpm_def bpm_eval_defs upt_2 replicate_2)

lemma one_page_bpm_reachable: "reachable 2 2 one_page_bpm"
  by (rule reachable.new_page [OF reachable.init _ one_page_bpm_step])
     (simp add: BufferPoolManager_new_def)

subsection \<open>Unpinning and the dirty bit\<close>

text \<open>
  C2. The claim: \<open>UnpinPage(p, is_dirty)\<close> sets the dirty bit to the OR of its previous
  value and \<open>is_dirty\<close>, so unpinning with \<open>false\<close> leaves a set dirty bit set. After
  \<open>NewPage\<close>, \<open>UnpinPage(0, true)\<close> and \<open>FetchPage(0)\<close>, page 0 is resident with pin
  count 1 and a set dirty bit; \<open>UnpinPage(0, false)\<close> returns true and the dirty bit is
  clear: \<open>UnpinPage\<close> assigns its argument to the bit. The page, modified and not
  written back, is from then on one that the frame selection replaces without
  \<open>FlushPage\<close>.
\<close>

theorem UnpinPage_false_clears_dirty:
  "new_unpin_fetch = Some dirty_pinned_bpm \<and>
   page_dirty 0 dirty_pinned_bpm = Some True \<and>
   page_pin_count 0 dirty_pinned_bpm = Some 1 \<and>
   map_option fst (UnpinPage dirty_pinned_bpm 0 False) = Some True \<and>
   Option.bind (map_option snd (UnpinPage dirty_pinned_bpm 0 False)) (page_dirty 0) = Some False"
proof -
  have "page_dirty 0 dirty_pinned_bpm = Some True"
    and "page_pin_count 0 dirty_pinned_bpm = Some 1"
    and "map_option fst (UnpinPage dirty_pinned_bpm 0 False) = Some True"
    and "Option.bind (map_option snd (UnpinPage dirty_pinned_bpm 0 False)) (page_dirty 0) = Some False"
    by code_simp+
  with new_unpin_fetch_state show ?thesis by simp
qed

subsection \<open>Free list and page table\<close>

text \<open>
  C9, as stated: in every state reached by the five operations, the free list and the
  frames of the page table are disjoint and cover \<open>[0, pool_size)\<close>. On a new pool of two
  frames, \<open>FetchPage(0)\<close> brings page 0 into frame 0, and \<open>NewPage\<close> then allocates page
  id 0 again and maps it to frame 1, overwriting the entry of frame 0: frame 0 is
  neither on the free list nor in the page table.
\<close>

theorem lost_frame_counterexample:
  "fetch_then_new = Some lost_frame_bpm \<and> \<not> frames_partitioned lost_frame_bpm"
proof -
  have "(0::int) \<in> {0..<int (pool_size lost_frame_bpm)}"
    by (simp add: lost_frame_bpm_def)
  moreover have "(0::int) \<notin> set (free_list lost_frame_bpm) \<union> ran (page_table lost_frame_bpm)"
    by (simp add: lost_frame_bpm_def)
  ultimately have "\<not> frames_partitioned lost_frame_bpm"
    unfolding frames_partitioned_def by metis
  with fetch_then_new_state show ?thesis by simp
qed

lemma keys_map_node: "fst ` set (map_node f g xs) = fst ` set xs"
  by (induction xs) (auto simp: map_node_def)

lemma keys_erase: "fst ` set (erase f xs) = fst ` set xs - {f}"
  by (induction xs) (auto simp: erase_def)

lemma map_of_Some_key: "map_of xs f = Some n \<Longrightarrow> f \<in> fst ` set xs"
  by (metis map_of_eq_None_iff option.distinct(1))

lemma RecordAccess_keys:
  assumes "RecordAccess r f = Some r'"
  shows "fst ` set (node_store r') = insert f (fst ` set (node_store r))"
proof (cases "map_of (node_store r) f")
  case None
  with assms show ?thesis
    by (simp add: RecordAccess_def Let_def split: if_splits) (use assms in force)
next
  case (Some n)
  then have "f \<in> fst ` set (node_store r)" by (rule map_of_Some_key)
  then have "insert f (fst ` set (node_store r)) = fst ` set (node_store r)" by blast
  moreover from assms Some have "node_store r' =
      map_node f (\<lambda>n. node_RecordAccess n (current_timestamp r + 1)) (node_store r)"
    by (simp add: RecordAccess_def Let_def split: if_splits) (use assms in force)
  ultimately show ?thesis by (simp add: keys_map_node)
qed

lemma SetEvictable_keys:
  assumes "SetEvictable r f e = Some r'"
  shows "fst ` set (node_store r') = fst ` set (node_store r)"
proof (cases "map_of (node_store r) f")
  case None
  with assms show ?thesis by (simp add: SetEvictable_def)
next
  case (Some n)
  with assms have "node_store r' = node_store r \<or> (\<exists>g. node_store r' = map_node f g (node_store r))"
    by (auto simp: SetEvictable_def split: if_splits)
  then show ?thesis
  proof
    assume "node_store r' = node_store r"
    then show ?thesis by simp
  next
    assume "\<exists>g. node_store r' = map_node f g (node_store r)"
    then obtain g where "node_store r' = map_node f g (node_store r)" ..
    then show ?thesis by (simp add: keys_map_node)
  qed
qed

lemma replacer_Remove_keys:
  assumes "replacer_Remove r f = Some r'"
  shows "fst ` set (node_store r') = fst ` set (node_store r) - {f}"
proof (cases "map_of (node_store r) f")
  case None
  then have "f \<notin> fst ` set (node_store r)" by (simp add: map_of_eq_None_iff)
  with assms None show ?thesis by (simp add: replacer_Remove_def)
next
  case (Some n)
  with assms have "node_store r' = erase f (node_store r)"
    by (auto simp: replacer_Remove_def split: if_splits)
  then show ?thesis by (simp add: keys_erase)
qed

lemma Evict_loop_id:
  "snd (snd (Evict_loop ts ns acc)) \<in> insert (snd (snd acc)) (fst ` set ns)"
proof (induction ns arbitrary: acc)
  case Nil
  show ?case by simp
next
  case (Cons e ns)
  obtain f node where e: "e = (f, node)" by (cases e)
  obtain m t i where acc: "acc = (m, t, i)" by (cases acc)
  show ?case
    using Cons.IH [of "(m, t, i)"] Cons.IH [of "(GetKDistance node ts, GetEarlyTimestamp node, f)"]
      Cons.IH [of "(m, GetEarlyTimestamp node, f)"]
    by (auto simp: e acc Let_def)
qed

lemma Evict_Some:
  assumes "Evict uninit r = (Some f, r')"
  shows "f \<in> fst ` set (node_store r) \<and> fst ` set (node_store r') = fst ` set (node_store r) - {f}"
proof -
  obtain m t i where l: "Evict_loop (current_timestamp r) (node_store r) (0, uninit, -1) = (m, t, i)"
    by (cases "Evict_loop (current_timestamp r) (node_store r) (0, uninit, -1)")
  from assms l have i: "i \<noteq> -1" "f = i" and r': "r' = r\<lparr> node_store := erase i (node_store r), evictable_size := evictable_size r - 1 \<rparr>"
    by (auto simp: Evict_def split: if_splits)
  from Evict_loop_id [of "current_timestamp r" "node_store r" "(0, uninit, -1)"] l i
  have "f \<in> fst ` set (node_store r)" by simp
  with r' i show ?thesis by (simp add: keys_erase)
qed

lemma Evict_None: "Evict uninit r = (None, r') \<Longrightarrow> r' = r"
  by (auto simp: Evict_def split: prod.splits if_splits)


lemma ran_upd_fresh: "m k = None \<Longrightarrow> ran (m(k \<mapsto> v)) = insert v (ran m)"
  by simp

lemma ran_del_unique:
  assumes mk: "m k = Some v" and uniq: "\<forall>k'. m k' = Some v \<longrightarrow> k' = k"
  shows "ran (m(k := None)) = ran m - {v}"
proof (rule set_eqI)
  fix w
  show "w \<in> ran (m(k := None)) \<longleftrightarrow> w \<in> ran m - {v}"
  proof
    assume "w \<in> ran (m(k := None))"
    then obtain a where a: "(m(k := None)) a = Some w" by (auto simp: ran_def)
    then have ak: "a \<noteq> k" and ma: "m a = Some w" by (auto split: if_splits)
    from ma have "w \<in> ran m" by (auto simp: ran_def)
    moreover have "w \<noteq> v"
    proof
      assume "w = v"
      with ma uniq have "a = k" by blast
      with ak show False by simp
    qed
    ultimately show "w \<in> ran m - {v}" by simp
  next
    assume "w \<in> ran m - {v}"
    then obtain a where ma: "m a = Some w" and wv: "w \<noteq> v" by (auto simp: ran_def)
    with mk have "a \<noteq> k" by auto
    with ma have "(m(k := None)) a = Some w" by simp
    then show "w \<in> ran (m(k := None))" by (rule ranI)
  qed
qed

lemma bpm_inv_pointwise:
  assumes "bpm_inv F b"
  shows "length (pages b) = pool_size b"
    and "distinct (free_list b)"
    and "\<And>x. x \<in> set (free_list b) \<Longrightarrow> x \<notin> ran (page_table b)"
    and "\<And>x. x \<in> set (free_list b) \<or> x \<in> ran (page_table b) \<longleftrightarrow> 0 \<le> x \<and> x < int (pool_size b) \<and> x \<notin> F"
    and "\<And>pid g. page_table b pid = Some g \<Longrightarrow> map pg_page_id (pages b) ! nat g = pid"
    and "\<And>x. x \<in> fst ` set (node_store (replacer b)) \<Longrightarrow> x \<in> ran (page_table b)"
proof -
  from assms have c: "set (free_list b) \<union> ran (page_table b) = {0..<int (pool_size b)} - F"
    and d: "set (free_list b) \<inter> ran (page_table b) = {}"
    and k: "fst ` set (node_store (replacer b)) \<subseteq> ran (page_table b)"
    by (simp_all add: bpm_inv_def)
  show "length (pages b) = pool_size b" "distinct (free_list b)"
    using assms by (simp_all add: bpm_inv_def)
  show "x \<notin> ran (page_table b)" if "x \<in> set (free_list b)" for x
    using d that by blast
  show "x \<in> set (free_list b) \<or> x \<in> ran (page_table b) \<longleftrightarrow> 0 \<le> x \<and> x < int (pool_size b) \<and> x \<notin> F" for x
  proof -
    have "x \<in> set (free_list b) \<union> ran (page_table b) \<longleftrightarrow> x \<in> {0..<int (pool_size b)} - F"
      by (simp only: c)
    then show ?thesis by simp
  qed
  show "map pg_page_id (pages b) ! nat g = pid" if "page_table b pid = Some g" for pid g
    using assms that by (simp add: bpm_inv_def)
  show "x \<in> ran (page_table b)" if "x \<in> fst ` set (node_store (replacer b))" for x
    using k that by blast
qed

lemma bpm_invI:
  assumes "length (pages b) = pool_size b"
    and "distinct (free_list b)"
    and "\<And>x. x \<in> set (free_list b) \<Longrightarrow> x \<notin> ran (page_table b)"
    and "\<And>x. x \<in> set (free_list b) \<or> x \<in> ran (page_table b) \<longleftrightarrow> 0 \<le> x \<and> x < int (pool_size b) \<and> x \<notin> F"
    and "\<And>pid g. page_table b pid = Some g \<Longrightarrow> map pg_page_id (pages b) ! nat g = pid"
    and "\<And>x. x \<in> fst ` set (node_store (replacer b)) \<Longrightarrow> x \<in> ran (page_table b)"
  shows "bpm_inv F b"
proof -
  have "set (free_list b) \<inter> ran (page_table b) = {}"
    using assms(3) by blast
  moreover have "set (free_list b) \<union> ran (page_table b) = {0..<int (pool_size b)} - F"
  proof (rule set_eqI)
    fix x
    show "x \<in> set (free_list b) \<union> ran (page_table b) \<longleftrightarrow> x \<in> {0..<int (pool_size b)} - F"
      using assms(4) [of x] by simp
  qed
  moreover have "fst ` set (node_store (replacer b)) \<subseteq> ran (page_table b)"
    using assms(6) by blast
  ultimately show ?thesis
    using assms(1,2,5) by (simp add: bpm_inv_def)
qed

lemma install_inv:
  assumes inv: "bpm_inv {f} b1" and f0: "0 \<le> f" and fn: "f < int (pool_size b1)"
    and fresh: "page_table b1 p = None"
    and ps: "pool_size b' = pool_size b1" and fl: "free_list b' = free_list b1"
    and pt: "page_table b' = (page_table b1)(p \<mapsto> f)"
    and ids: "map pg_page_id (pages b') = (map pg_page_id (pages b1))[nat f := p]"
    and keys: "fst ` set (node_store (replacer b')) \<subseteq> insert f (fst ` set (node_store (replacer b1)))"
  shows "bpm_inv {} b'"
proof (rule bpm_invI)
  note P = bpm_inv_pointwise [OF inv]
  have ran': "ran (page_table b') = insert f (ran (page_table b1))"
    using fresh by (simp add: pt)
  have fnot: "f \<notin> set (free_list b1)" "f \<notin> ran (page_table b1)"
    using P(4) [of f] by simp_all
  show "length (pages b') = pool_size b'"
    using arg_cong [OF ids, of length] P(1) ps by simp
  show "distinct (free_list b')"
    using P(2) by (simp add: fl)
  show "x \<notin> ran (page_table b')" if "x \<in> set (free_list b')" for x
    using that P(3) [of x] fnot by (auto simp: ran' fl)
  show "x \<in> set (free_list b') \<or> x \<in> ran (page_table b') \<longleftrightarrow> 0 \<le> x \<and> x < int (pool_size b') \<and> x \<notin> {}" for x
    using P(4) [of x] f0 fn by (auto simp: ran' fl ps)
  show "map pg_page_id (pages b') ! nat g = pid" if "page_table b' pid = Some g" for pid g
  proof (cases "pid = p")
    case True
    with that have "g = f" by (simp add: pt)
    with True f0 fn P(1) show ?thesis by (simp add: ids)
  next
    case False
    with that have g: "page_table b1 pid = Some g" by (simp add: pt)
    then have gr: "g \<in> ran (page_table b1)" by (rule ranI)
    with fnot have "g \<noteq> f" by auto
    moreover from gr P(4) [of g] have "0 \<le> g" by simp
    ultimately have "nat g \<noteq> nat f" using f0 by simp
    with P(5) [OF g] show ?thesis by (simp add: ids)
  qed
  show "x \<in> ran (page_table b')" if "x \<in> fst ` set (node_store (replacer b'))" for x
  proof -
    from that keys have "x = f \<or> x \<in> fst ` set (node_store (replacer b1))" by blast
    then show ?thesis using P(6) [of x] by (auto simp: ran')
  qed
qed

lemma map_id_update_same:
  "pg_page_id p = pg_page_id (ps ! i) \<Longrightarrow> map pg_page_id (ps[i := p]) = map pg_page_id ps"
  by (simp add: map_update) (simp add: map_update [symmetric])

lemma FlushPage_frame:
  assumes "FlushPage b pid = Some (ok, b')"
  shows "pool_size b' = pool_size b \<and> free_list b' = free_list b \<and> page_table b' = page_table b \<and>
         replacer b' = replacer b \<and> next_page_id b' = next_page_id b \<and>
         map pg_page_id (pages b') = map pg_page_id (pages b)"
proof (cases "page_table b pid")
  case None
  with assms show ?thesis by (simp add: FlushPage_def split: if_splits)
next
  case (Some f)
  with assms have "b' = b\<lparr> pages := (pages b)[nat f := (pages b ! nat f)\<lparr> is_dirty := False \<rparr>] \<rparr>"
    by (simp add: FlushPage_def split: if_splits)
  then show ?thesis by (simp add: map_id_update_same)
qed

lemma bpm_inv_cong:
  assumes "pool_size b' = pool_size b" "free_list b' = free_list b" "page_table b' = page_table b"
    and "map pg_page_id (pages b') = map pg_page_id (pages b)"
    and "fst ` set (node_store (replacer b')) = fst ` set (node_store (replacer b))"
  shows "bpm_inv F b' = bpm_inv F b"
proof -
  have "length (pages b') = length (pages b)"
    using arg_cong [OF assms(4), of length] by simp
  then show ?thesis
    unfolding bpm_inv_def assms by simp
qed

lemma FlushPage_inv:
  assumes "FlushPage b pid = Some (ok, b')" "bpm_inv F b"
  shows "bpm_inv F b'"
  using FlushPage_frame [OF assms(1)] assms(2) bpm_inv_cong [of b' b F] by simp


lemma PickFrame_evict:
  assumes "free_list b = []"
  shows "PickFrame uninit b =
     (case Evict uninit (replacer b) of
        (None, r) \<Rightarrow> Some (None, b)
      | (Some f, r) \<Rightarrow>
          (if is_dirty (pages b ! nat f)
           then map_option snd (FlushPage (b\<lparr> replacer := r \<rparr>) (pg_page_id (pages b ! nat f)))
           else Some (b\<lparr> replacer := r \<rparr>)) \<bind>
          (\<lambda>b2. Some (Some f, b2\<lparr> page_table := (page_table b2)(pg_page_id (pages b ! nat f) := None) \<rparr>)))"
  using assms by (simp add: PickFrame_def Let_def split: prod.splits option.splits)

lemma PickFrame_None:
  assumes "PickFrame uninit b = Some (None, b1)"
  shows "b1 = b"
proof (cases "free_list b = []")
  case False
  with assms show ?thesis by (simp add: PickFrame_def)
next
  case True
  show ?thesis
    using assms unfolding PickFrame_evict [OF True]
    by (auto simp: bind_eq_Some_conv split: prod.splits option.splits)
qed

lemma PickFrame_Some:
  assumes pick: "PickFrame uninit b = Some (Some f, b1)" and inv: "bpm_inv {} b"
  shows "bpm_inv {f} b1 \<and> 0 \<le> f \<and> f < int (pool_size b) \<and> pool_size b1 = pool_size b \<and>
         next_page_id b1 = next_page_id b \<and>
         (\<forall>p. page_table b p = None \<longrightarrow> page_table b1 p = None)"
proof (cases "free_list b = []")
  case False
  then obtain rest where fl: "free_list b = f # rest" and b1: "b1 = b\<lparr> free_list := rest \<rparr>"
    using pick by (cases "free_list b") (auto simp: PickFrame_def)
  note P = bpm_inv_pointwise [OF inv]
  have frange: "0 \<le> f \<and> f < int (pool_size b)"
    using P(4) [of f] by (simp add: fl)
  have fr: "f \<notin> ran (page_table b)" using P(3) [of f] by (simp add: fl)
  have fnr: "f \<notin> set rest" using P(2) by (simp add: fl)
  have "bpm_inv {f} b1"
  proof (rule bpm_invI)
    show "length (pages b1) = pool_size b1" using P(1) by (simp add: b1)
    show "distinct (free_list b1)" using P(2) by (simp add: b1 fl)
    show "x \<notin> ran (page_table b1)" if "x \<in> set (free_list b1)" for x
      using that P(3) [of x] by (simp add: b1 fl)
    show "x \<in> set (free_list b1) \<or> x \<in> ran (page_table b1) \<longleftrightarrow>
            0 \<le> x \<and> x < int (pool_size b1) \<and> x \<notin> {f}" for x
      using P(4) [of x] fr fnr by (auto simp: b1 fl)
    show "map pg_page_id (pages b1) ! nat g = pid" if "page_table b1 pid = Some g" for pid g
      using that P(5) [of pid g] by (simp add: b1)
    show "x \<in> ran (page_table b1)" if "x \<in> fst ` set (node_store (replacer b1))" for x
      using that P(6) [of x] by (simp add: b1)
  qed
  with frange show ?thesis by (simp add: b1)
next
  case True
  note P = bpm_inv_pointwise [OF inv]
  obtain fo r where ev0: "Evict uninit (replacer b) = (fo, r)"
    by (cases "Evict uninit (replacer b)")
  from pick ev0 have fo: "fo = Some f"
    unfolding PickFrame_evict [OF True]
    by (cases fo) (auto simp: bind_eq_Some_conv)
  with ev0 have ev: "Evict uninit (replacer b) = (Some f, r)" by simp
  from pick obtain b2 where b2': "(if is_dirty (pages b ! nat f)
                then map_option snd (FlushPage (b\<lparr> replacer := r \<rparr>) (pg_page_id (pages b ! nat f)))
                else Some (b\<lparr> replacer := r \<rparr>)) = Some b2"
    and b1': "b1 = b2\<lparr> page_table := (page_table b2)(pg_page_id (pages b ! nat f) := None) \<rparr>"
    unfolding PickFrame_evict [OF True] ev
    by (auto simp: bind_eq_Some_conv)
  from Evict_Some [OF ev] have fk: "f \<in> fst ` set (node_store (replacer b))"
    and keys: "fst ` set (node_store r) = fst ` set (node_store (replacer b)) - {f}"
    by simp_all
  from P(6) [OF fk] have fran: "f \<in> ran (page_table b)" .
  then obtain pid0 where pid0: "page_table b pid0 = Some f" by (auto simp: ran_def)
  have frange: "0 \<le> f \<and> f < int (pool_size b)"
    using P(4) [of f] fran by simp
  have "nat f < length (pages b)"
    using frange P(1) by (simp add: nat_less_iff)
  then have old: "pg_page_id (pages b ! nat f) = pid0"
    using P(5) [OF pid0] by simp
  have b2: "(if is_dirty (pages b ! nat f)
                then map_option snd (FlushPage (b\<lparr> replacer := r \<rparr>) pid0)
                else Some (b\<lparr> replacer := r \<rparr>)) = Some b2"
    and b1: "b1 = b2\<lparr> page_table := (page_table b2)(pid0 := None) \<rparr>"
    using b2' b1' unfolding old by simp_all
  have frame: "pool_size b2 = pool_size b \<and> free_list b2 = free_list b \<and> page_table b2 = page_table b \<and>
         replacer b2 = r \<and> next_page_id b2 = next_page_id b \<and>
         map pg_page_id (pages b2) = map pg_page_id (pages b)"
  proof (cases "is_dirty (pages b ! nat f)")
    case False
    with b2 show ?thesis by auto
  next
    case True
    with b2 obtain ok where "FlushPage (b\<lparr> replacer := r \<rparr>) pid0 = Some (ok, b2)" by auto
    from FlushPage_frame [OF this] show ?thesis by simp
  qed
  have uniq: "\<forall>k'. page_table b k' = Some f \<longrightarrow> k' = pid0"
    using P(5) pid0 by metis
  have ran1: "ran (page_table b1) = ran (page_table b) - {f}"
    using ran_del_unique [OF pid0 uniq] frame by (simp add: b1)
  have len2: "length (pages b2) = length (pages b)"
    using frame by (metis length_map)
  have "bpm_inv {f} b1"
  proof (rule bpm_invI)
    show "length (pages b1) = pool_size b1" using P(1) frame len2 by (simp add: b1)
    show "distinct (free_list b1)" using frame True by (simp add: b1)
    show "x \<notin> ran (page_table b1)" if "x \<in> set (free_list b1)" for x
      using that frame True by (simp add: b1)
    show "x \<in> set (free_list b1) \<or> x \<in> ran (page_table b1) \<longleftrightarrow>
            0 \<le> x \<and> x < int (pool_size b1) \<and> x \<notin> {f}" for x
    proof -
      have "x \<in> set (free_list b1) \<or> x \<in> ran (page_table b1) \<longleftrightarrow> x \<in> ran (page_table b) \<and> x \<noteq> f"
        using frame True by (simp add: ran1) (simp add: b1)
      also have "\<dots> \<longleftrightarrow> 0 \<le> x \<and> x < int (pool_size b1) \<and> x \<notin> {f}"
        using P(4) [of x] frame True by (auto simp: b1)
      finally show ?thesis .
    qed
    show "map pg_page_id (pages b1) ! nat g = pid" if "page_table b1 pid = Some g" for pid g
    proof -
      from that frame have "page_table b pid = Some g"
        by (simp add: b1 split: if_splits)
      from P(5) [OF this] frame show ?thesis by (simp add: b1)
    qed
    show "x \<in> ran (page_table b1)" if "x \<in> fst ` set (node_store (replacer b1))" for x
    proof -
      from that frame keys have "x \<in> fst ` set (node_store (replacer b))" "x \<noteq> f"
        by (simp_all add: b1)
      with P(6) [of x] show ?thesis by (simp add: ran1)
    qed
  qed
  moreover have "\<forall>p. page_table b p = None \<longrightarrow> page_table b1 p = None"
    using frame by (simp add: b1)
  ultimately show ?thesis using frange frame by (simp add: b1)
qed


lemma NewPage_cases:
  assumes "NewPage uninit b = Some (res, b')"
  shows "(PickFrame uninit b = Some (None, b') \<and> res = None) \<or>
         (\<exists>f b1 r1 r2. PickFrame uninit b = Some (Some f, b1) \<and>
            RecordAccess (replacer b1) f = Some r1 \<and> SetEvictable r1 f False = Some r2 \<and>
            res = Some (next_page_id b1, f) \<and>
            b' = b1\<lparr> next_page_id := wrap32 (next_page_id b1 + 1), replacer := r2,
                      page_table := (page_table b1)(next_page_id b1 \<mapsto> f),
                      pages := (pages b1)[nat f := (pages b1 ! nat f)
                         \<lparr> pin_count := 1, pg_page_id := next_page_id b1, is_dirty := False \<rparr>] \<rparr>)"
  using assms
  by (auto simp: NewPage_def AllocatePage_def Let_def bind_eq_Some_conv split: option.splits prod.splits)

lemma FetchPage_miss_cases:
  assumes "FetchPage uninit b pid = Some (res, b')" and "page_table b pid = None"
  shows "(PickFrame uninit b = Some (None, b') \<and> res = None) \<or>
         (\<exists>f b1 r1 r2. PickFrame uninit b = Some (Some f, b1) \<and>
            RecordAccess (replacer b1) f = Some r1 \<and> SetEvictable r1 f False = Some r2 \<and>
            res = Some f \<and>
            b' = b1\<lparr> replacer := r2,
                      page_table := (page_table b1)(pid \<mapsto> f),
                      pages := (pages b1)[nat f := (pages b1 ! nat f)
                         \<lparr> pg_page_id := pid, pin_count := 1, is_dirty := False \<rparr>] \<rparr>)"
  using assms
  by (auto simp: FetchPage_def Let_def bind_eq_Some_conv split: option.splits prod.splits)

lemma FetchPage_hit_cases:
  assumes "FetchPage uninit b pid = Some (res, b')" and "page_table b pid = Some f"
  shows "\<exists>r1 r2. RecordAccess (replacer b) f = Some r1 \<and> SetEvictable r1 f False = Some r2 \<and>
            res = Some f \<and>
            b' = b\<lparr> pages := (pages b)[nat f := (pages b ! nat f)
                         \<lparr> pin_count := pin_count (pages b ! nat f) + 1, is_dirty := True \<rparr>],
                     replacer := r2 \<rparr>"
  using assms
  by (auto simp: FetchPage_def Let_def bind_eq_Some_conv split: option.splits prod.splits)

lemma install_keys:
  assumes "RecordAccess r f = Some r1" "SetEvictable r1 f e = Some r2"
  shows "fst ` set (node_store r2) = insert f (fst ` set (node_store r))"
  using RecordAccess_keys [OF assms(1)] SetEvictable_keys [OF assms(2)] by simp

lemma NewPage_inv:
  assumes step: "NewPage uninit b = Some (res, b')" and inv: "bpm_inv {} b"
    and fresh: "page_table b (next_page_id b) = None"
  shows "bpm_inv {} b'"
  using NewPage_cases [OF step]
proof (elim disjE exE conjE)
  assume "PickFrame uninit b = Some (None, b')"
  from PickFrame_None [OF this] inv show ?thesis by simp
next
  fix f b1 r1 r2
  assume pick: "PickFrame uninit b = Some (Some f, b1)"
    and ra: "RecordAccess (replacer b1) f = Some r1" and se: "SetEvictable r1 f False = Some r2"
    and b': "b' = b1\<lparr> next_page_id := wrap32 (next_page_id b1 + 1), replacer := r2,
                      page_table := (page_table b1)(next_page_id b1 \<mapsto> f),
                      pages := (pages b1)[nat f := (pages b1 ! nat f)
                         \<lparr> pin_count := 1, pg_page_id := next_page_id b1, is_dirty := False \<rparr>] \<rparr>"
  from PickFrame_Some [OF pick inv] have inv1: "bpm_inv {f} b1" and f0: "0 \<le> f"
    and fn: "f < int (pool_size b1)" and np: "next_page_id b1 = next_page_id b"
    and pt: "\<forall>p. page_table b p = None \<longrightarrow> page_table b1 p = None"
    by simp_all
  from pt fresh np have fresh1: "page_table b1 (next_page_id b1) = None" by simp
  show ?thesis
  proof (rule install_inv [OF inv1 f0 fn fresh1])
    show "pool_size b' = pool_size b1" "free_list b' = free_list b1"
      "page_table b' = (page_table b1)(next_page_id b1 \<mapsto> f)"
      by (simp_all add: b')
    show "map pg_page_id (pages b') = (map pg_page_id (pages b1))[nat f := next_page_id b1]"
      by (simp add: b' map_update)
    show "fst ` set (node_store (replacer b')) \<subseteq> insert f (fst ` set (node_store (replacer b1)))"
      using install_keys [OF ra se] by (simp add: b')
  qed
qed

lemma FetchPage_inv:
  assumes step: "FetchPage uninit b pid = Some (res, b')" and inv: "bpm_inv {} b"
  shows "bpm_inv {} b'"
proof (cases "page_table b pid")
  case None
  from FetchPage_miss_cases [OF step None] show ?thesis
  proof (elim disjE exE conjE)
    assume "PickFrame uninit b = Some (None, b')"
    from PickFrame_None [OF this] inv show ?thesis by simp
  next
    fix f b1 r1 r2
    assume pick: "PickFrame uninit b = Some (Some f, b1)"
      and ra: "RecordAccess (replacer b1) f = Some r1" and se: "SetEvictable r1 f False = Some r2"
      and b': "b' = b1\<lparr> replacer := r2,
                      page_table := (page_table b1)(pid \<mapsto> f),
                      pages := (pages b1)[nat f := (pages b1 ! nat f)
                         \<lparr> pg_page_id := pid, pin_count := 1, is_dirty := False \<rparr>] \<rparr>"
    from PickFrame_Some [OF pick inv] have inv1: "bpm_inv {f} b1" and f0: "0 \<le> f"
      and fn: "f < int (pool_size b1)"
      and pt: "\<forall>p. page_table b p = None \<longrightarrow> page_table b1 p = None"
      by simp_all
    from pt None have fresh1: "page_table b1 pid = None" by simp
    show ?thesis
    proof (rule install_inv [OF inv1 f0 fn fresh1])
      show "pool_size b' = pool_size b1" "free_list b' = free_list b1"
        "page_table b' = (page_table b1)(pid \<mapsto> f)"
        by (simp_all add: b')
      show "map pg_page_id (pages b') = (map pg_page_id (pages b1))[nat f := pid]"
        by (simp add: b' map_update)
      show "fst ` set (node_store (replacer b')) \<subseteq> insert f (fst ` set (node_store (replacer b1)))"
        using install_keys [OF ra se] by (simp add: b')
    qed
  qed
next
  case (Some f)
  from FetchPage_hit_cases [OF step Some] obtain r1 r2 where
    ra: "RecordAccess (replacer b) f = Some r1" and se: "SetEvictable r1 f False = Some r2"
    and b': "b' = b\<lparr> pages := (pages b)[nat f := (pages b ! nat f)
                         \<lparr> pin_count := pin_count (pages b ! nat f) + 1, is_dirty := True \<rparr>],
                     replacer := r2 \<rparr>"
    by blast
  note P = bpm_inv_pointwise [OF inv]
  from Some have fran: "f \<in> ran (page_table b)" by (rule ranI)
  have keys: "fst ` set (node_store r2) = insert f (fst ` set (node_store (replacer b)))"
    using install_keys [OF ra se] .
  show ?thesis
  proof (rule bpm_invI)
    show "length (pages b') = pool_size b'" using P(1) by (simp add: b')
    show "distinct (free_list b')" using P(2) by (simp add: b')
    show "x \<notin> ran (page_table b')" if "x \<in> set (free_list b')" for x
      using that P(3) [of x] by (simp add: b')
    show "x \<in> set (free_list b') \<or> x \<in> ran (page_table b') \<longleftrightarrow>
            0 \<le> x \<and> x < int (pool_size b') \<and> x \<notin> {}" for x
      using P(4) [of x] by (simp add: b')
    show "map pg_page_id (pages b') ! nat g = p" if "page_table b' p = Some g" for p g
      using that P(5) [of p g] by (simp add: b' map_id_update_same)
    show "x \<in> ran (page_table b')" if "x \<in> fst ` set (node_store (replacer b'))" for x
      using that P(6) [of x] fran keys by (auto simp: b')
  qed
qed


lemma UnpinPage_cases:
  assumes "UnpinPage b pid dirty = Some (ok, b')"
  shows "b' = b \<or>
         (\<exists>f r. page_table b pid = Some f \<and> 0 < pin_count (pages b ! nat f) \<and>
            SetEvictable (replacer b) f (pin_count (pages b ! nat f) - 1 = 0) = Some r \<and> ok \<and>
            b' = b\<lparr> replacer := r,
                     pages := (pages b)[nat f := (pages b ! nat f)
                        \<lparr> pin_count := pin_count (pages b ! nat f) - 1, is_dirty := dirty \<rparr>] \<rparr>)"
  using assms
  by (auto simp: UnpinPage_def Let_def bind_eq_Some_conv split: option.splits if_splits)

lemma UnpinPage_inv:
  assumes step: "UnpinPage b pid dirty = Some (ok, b')" and inv: "bpm_inv F b"
  shows "bpm_inv F b'"
  using UnpinPage_cases [OF step]
proof (elim disjE exE conjE)
  assume "b' = b"
  with inv show ?thesis by simp
next
  fix f r
  assume se: "SetEvictable (replacer b) f (pin_count (pages b ! nat f) - 1 = 0) = Some r"
    and b': "b' = b\<lparr> replacer := r,
                     pages := (pages b)[nat f := (pages b ! nat f)
                        \<lparr> pin_count := pin_count (pages b ! nat f) - 1, is_dirty := dirty \<rparr>] \<rparr>"
  have "bpm_inv F b' = bpm_inv F b"
    by (rule bpm_inv_cong) (simp_all add: b' map_id_update_same SetEvictable_keys [OF se])
  with inv show ?thesis by simp
qed

lemma DeletePage_cases:
  assumes "DeletePage b pid = Some (ok, b')"
  shows "b' = b \<or>
         (\<exists>f b1 r. page_table b pid = Some f \<and>
            (if is_dirty (pages b ! nat f) then map_option snd (FlushPage b pid) else Some b) = Some b1 \<and>
            replacer_Remove (replacer b1) f = Some r \<and>
            b' = b1\<lparr> page_table := (page_table b1)(pg_page_id (pages b1 ! nat f) := None),
                      replacer := r, free_list := free_list b1 @ [f] \<rparr>)"
  using assms
  by (auto simp: DeletePage_def Let_def bind_eq_Some_conv split: option.splits if_splits)

lemma DeletePage_inv:
  assumes step: "DeletePage b pid = Some (ok, b')" and inv: "bpm_inv {} b"
  shows "bpm_inv {} b'"
  using DeletePage_cases [OF step]
proof (elim disjE exE conjE)
  assume "b' = b"
  with inv show ?thesis by simp
next
  fix f b1 r
  assume pid: "page_table b pid = Some f"
    and fl: "(if is_dirty (pages b ! nat f) then map_option snd (FlushPage b pid) else Some b) = Some b1"
    and rm: "replacer_Remove (replacer b1) f = Some r"
    and b': "b' = b1\<lparr> page_table := (page_table b1)(pg_page_id (pages b1 ! nat f) := None),
                      replacer := r, free_list := free_list b1 @ [f] \<rparr>"
  have frame: "pool_size b1 = pool_size b \<and> free_list b1 = free_list b \<and> page_table b1 = page_table b \<and>
         replacer b1 = replacer b \<and> next_page_id b1 = next_page_id b \<and>
         map pg_page_id (pages b1) = map pg_page_id (pages b)"
  proof (cases "is_dirty (pages b ! nat f)")
    case False
    with fl show ?thesis by auto
  next
    case True
    with fl obtain ok' where "FlushPage b pid = Some (ok', b1)" by auto
    from FlushPage_frame [OF this] show ?thesis by simp
  qed
  have "bpm_inv {} b1 = bpm_inv {} b"
    by (rule bpm_inv_cong) (simp_all add: frame)
  with inv have inv1: "bpm_inv {} b1" by simp
  note P = bpm_inv_pointwise [OF inv1]
  from pid frame have pid1: "page_table b1 pid = Some f" by simp
  then have fran: "f \<in> ran (page_table b1)" by (rule ranI)
  have frange: "0 \<le> f \<and> f < int (pool_size b1)"
    using P(4) [of f] fran by simp
  have "nat f < length (pages b1)"
    using frange P(1) by (simp add: nat_less_iff)
  then have old: "pg_page_id (pages b1 ! nat f) = pid"
    using P(5) [OF pid1] by simp
  have uniq: "\<forall>k'. page_table b1 k' = Some f \<longrightarrow> k' = pid"
    using P(5) pid1 by metis
  have ran': "ran (page_table b') = ran (page_table b1) - {f}"
    using ran_del_unique [OF pid1 uniq] by (simp add: b' old)
  have ffree: "f \<notin> set (free_list b1)"
    using P(3) [of f] fran by blast
  show ?thesis
  proof (rule bpm_invI)
    show "length (pages b') = pool_size b'" using P(1) by (simp add: b')
    show "distinct (free_list b')" using P(2) ffree by (simp add: b')
    have fl': "set (free_list b') = insert f (set (free_list b1))"
      by (simp add: b')
    show "x \<notin> ran (page_table b')" if "x \<in> set (free_list b')" for x
    proof -
      from that fl' have "x = f \<or> x \<in> set (free_list b1)" by simp
      then show ?thesis using P(3) [of x] by (auto simp: ran')
    qed
    show "x \<in> set (free_list b') \<or> x \<in> ran (page_table b') \<longleftrightarrow>
            0 \<le> x \<and> x < int (pool_size b') \<and> x \<notin> {}" for x
    proof -
      have "x \<in> set (free_list b') \<or> x \<in> ran (page_table b') \<longleftrightarrow>
              x \<in> set (free_list b1) \<or> x \<in> ran (page_table b1)"
        using fran by (auto simp: ran' fl')
      then show ?thesis using P(4) [of x] by (simp add: b')
    qed
    show "map pg_page_id (pages b') ! nat g = p" if "page_table b' p = Some g" for p g
    proof -
      from that have "page_table b1 p = Some g" by (simp add: b' split: if_splits)
      from P(5) [OF this] show ?thesis by (simp add: b')
    qed
    show "x \<in> ran (page_table b')" if "x \<in> fst ` set (node_store (replacer b'))" for x
    proof -
      from that replacer_Remove_keys [OF rm]
      have "x \<in> fst ` set (node_store (replacer b1))" "x \<noteq> f" by (simp_all add: b')
      with P(6) [of x] show ?thesis by (simp add: ran')
    qed
  qed
qed

lemma init_inv: "bpm_inv {} (BufferPoolManager_new n kk)"
proof (rule bpm_invI)
  show "x \<in> set (free_list (BufferPoolManager_new n kk)) \<or> x \<in> ran (page_table (BufferPoolManager_new n kk)) \<longleftrightarrow>
          0 \<le> x \<and> x < int (pool_size (BufferPoolManager_new n kk)) \<and> x \<notin> {}" for x
    by (auto simp: BufferPoolManager_new_def image_iff) (metis nat_less_iff int_nat_eq atLeastLessThan_iff atLeast0LessThan lessThan_iff)
qed (simp_all add: BufferPoolManager_new_def LRUKReplacer_new_def distinct_map)

lemma reachable_inv: "reachable n kk b \<Longrightarrow> bpm_inv {} b"
proof (induction rule: reachable.induct)
  case init
  show ?case by (rule init_inv)
next
  case (new_page b uninit res b')
  then show ?case using NewPage_inv by blast
next
  case (fetch_page b uninit pid fres b')
  then show ?case using FetchPage_inv by blast
next
  case (unpin_page b pid dirty ok b')
  then show ?case using UnpinPage_inv by blast
next
  case (flush_page b pid ok b')
  then show ?case using FlushPage_inv by blast
next
  case (delete_page b pid ok b')
  then show ?case using DeletePage_inv by blast
qed

text \<open>
  C9, amended. In every state reached from a new buffer pool by \<open>NewPage\<close>,
  \<open>FetchPage\<close>, \<open>UnpinPage\<close>, \<open>FlushPage\<close> and \<open>DeletePage\<close>, where \<open>NewPage\<close> is never
  called while the page id it is about to allocate is resident, the free list and the
  frames of the page table are disjoint and together are \<open>[0, pool_size)\<close>.
\<close>

theorem reachable_frames_partitioned:
  assumes "reachable n kk b"
  shows "frames_partitioned b"
  using reachable_inv [OF assms] by (simp add: bpm_inv_def frames_partitioned_def)

text \<open>
  The state after one \<open>NewPage\<close> on a pool of two frames is reached in this way, and
  frame 0 (resident) and frame 1 (free) partition the pool.
\<close>

theorem reachable_frames_partitioned_witness:
  "reachable 2 2 one_page_bpm \<and> frames_partitioned one_page_bpm"
  using reachable_frames_partitioned [OF one_page_bpm_reachable] one_page_bpm_reachable by simp

end
